theory Spec2Isabelle
  imports Main
begin

section \<open>The post registry\<close>

text \<open>
  The module that the page imports as \<^verbatim>\<open>@/lib/blogs\<close>; its text stands in
  \<^verbatim>\<open>src/app/blog/[slug]/page.tsx\<close>, lines 261 to 285.

  The \<^verbatim>\<open>Blog\<close> interface. Strings are lists of code units; the optional fields
  \<^verbatim>\<open>content?\<close> and \<^verbatim>\<open>contentFile?\<close> are options, \<open>None\<close> standing for
  \<^verbatim>\<open>undefined\<close>. The field \<^verbatim>\<open>id\<close> is written \<open>id'\<close>, the name \<open>id\<close> being
  HOL's identity function.
\<close>

record Blog =
  id' :: string
  title :: string
  description :: string
  category :: string
  readTime :: string
  date :: string
  views :: string
  comments :: int
  tags :: "string list"
  slug :: string
  content :: "string option"
  contentFile :: "string option"

text \<open>
  \<^verbatim>\<open>blogs\<close> is the array read from \<^verbatim>\<open>@/data/blogs.json\<close>. The data file is not part
  of the sources, so the array is a parameter of both functions.
  \<^verbatim>\<open>blogs.find((blog) => blog.slug === slug)\<close> returns the first element that
  satisfies the test and \<^verbatim>\<open>undefined\<close> when there is none, which is \<^const>\<open>find\<close>.
\<close>

definition getBlogBySlug :: "Blog list \<Rightarrow> string \<Rightarrow> Blog option" where
  "getBlogBySlug blogs s = find (\<lambda>blog. slug blog = s) blogs"

definition getAllBlogSlugs :: "Blog list \<Rightarrow> string list" where
  "getAllBlogSlugs blogs = map slug blogs"

section \<open>The Markdown renderer\<close>

text \<open>
  The module that the page imports as \<^verbatim>\<open>@/lib/markdown\<close>, with \<^verbatim>\<open>parseMarkdown\<close>
  and \<^verbatim>\<open>escapeHtml\<close>; its text stands in \<^verbatim>\<open>src/app/blog/[slug]/page.tsx\<close>, lines 195
  to 260. Each pass of \<^verbatim>\<open>parseMarkdown\<close> is one call of \<^verbatim>\<open>replace\<close> with a regular
  expression; a pattern is modelled by the function that matches it at one position.
\<close>

subsection \<open>Strings and character classes of the regular expressions\<close>

text \<open>
  A JavaScript string is a sequence of UTF-16 code units. The model keeps the code units
  below 256, one \<^typ>\<open>char\<close> each; the line terminators U+2028 and U+2029 and the
  white space above U+00FF lie outside it.

  \<^verbatim>\<open>\w\<close> is \<^verbatim>\<open>[A-Za-z0-9_]\<close>. The dot and the anchors \<^verbatim>\<open>^\<close> and \<^verbatim>\<open>$\<close>
  of a multiline pattern look at line terminators, here line feed and carriage return.
  \<^verbatim>\<open>\s\<close> and \<^verbatim>\<open>trim\<close> share one set: tab, line feed, vertical tab, form feed,
  carriage return, space and the no-break space.
\<close>

definition isWordChar :: "char \<Rightarrow> bool" where
  "isWordChar c =
     (c \<in> set ''abcdefghijklmnopqrstuvwxyzABCDEFGHIJKLMNOPQRSTUVWXYZ0123456789_'')"

definition isLineTerminator :: "char \<Rightarrow> bool" where
  "isLineTerminator c = (c = CHR 0x0A \<or> c = CHR 0x0D)"

definition isSpace :: "char \<Rightarrow> bool" where
  "isSpace c =
     (c = CHR 0x09 \<or> c = CHR 0x0A \<or> c = CHR 0x0B \<or> c = CHR 0x0C \<or> c = CHR 0x0D \<or>
      c = CHR 0x20 \<or> c = CHR 0xA0)"

definition notBacktick :: "char \<Rightarrow> bool" where
  "notBacktick c = (c \<noteq> CHR ''`'')"

definition notStar :: "char \<Rightarrow> bool" where
  "notStar c = (c \<noteq> CHR ''*'')"

definition notLineTerminator :: "char \<Rightarrow> bool" where
  "notLineTerminator c = (\<not> isLineTerminator c)"

text \<open>\<^verbatim>\<open>String.prototype.trim\<close>: white space is removed at both ends.\<close>

definition trim :: "string \<Rightarrow> string" where
  "trim s = rev (dropWhile isSpace (rev (dropWhile isSpace s)))"

text \<open>\<^verbatim>\<open>String.prototype.startsWith\<close> and \<^verbatim>\<open>String.prototype.includes\<close>.\<close>

fun startsWith :: "string \<Rightarrow> string \<Rightarrow> bool" where
  "startsWith s [] = True"
| "startsWith [] (p # ps) = False"
| "startsWith (c # cs) (p # ps) = (c = p \<and> startsWith cs ps)"

fun includes' :: "string \<Rightarrow> string \<Rightarrow> bool" where
  "includes' [] p = (p = [])"
| "includes' (c # cs) p = (startsWith (c # cs) p \<or> includes' cs p)"

text \<open>
  Matching a literal piece of a pattern at the current position: the text after it, or
  \<open>None\<close> when the text does not start with the literal.
\<close>

fun literal :: "string \<Rightarrow> string \<Rightarrow> string option" where
  "literal [] s = Some s"
| "literal (p # ps) [] = None"
| "literal (p # ps) (c # cs) = (if p = c then literal ps cs else None)"

text \<open>
  A lazy \<^verbatim>\<open>[\s\S]*?\<close> followed by a literal: the shortest text after which the
  literal matches, so the split is at the first occurrence of the literal. The result is
  the text before the literal and the text after it.
\<close>

fun lazyUntil :: "string \<Rightarrow> string \<Rightarrow> (string \<times> string) option" where
  "lazyUntil p [] = (case literal p [] of Some r \<Rightarrow> Some ([], r) | None \<Rightarrow> None)"
| "lazyUntil p (c # cs) =
     (case literal p (c # cs) of
        Some r \<Rightarrow> Some ([], r)
      | None \<Rightarrow>
          (case lazyUntil p cs of
             Some (before, r) \<Rightarrow> Some (c # before, r)
           | None \<Rightarrow> None))"

text \<open>
  A greedy \<^verbatim>\<open>.*\<close> followed by a literal, on the text of one line: the longest text
  after which the literal matches, so the split is at the last occurrence of the literal.
\<close>

fun greedyUntil :: "string \<Rightarrow> string \<Rightarrow> (string \<times> string) option" where
  "greedyUntil p [] = (case literal p [] of Some r \<Rightarrow> Some ([], r) | None \<Rightarrow> None)"
| "greedyUntil p (c # cs) =
     (case greedyUntil p cs of
        Some (before, r) \<Rightarrow> Some (c # before, r)
      | None \<Rightarrow>
          (case literal p (c # cs) of
             Some r \<Rightarrow> Some ([], r)
           | None \<Rightarrow> None))"

subsection \<open>Global replacement\<close>

text \<open>
  \<^verbatim>\<open>html.replace(/.../g, ...)\<close> scans the string from the left. At each position the
  pattern is tried; when it matches, the replacement is emitted and the scan goes on
  behind the match, otherwise the code unit is copied and the scan moves one position.
  A \<open>matcher\<close> is one pattern together with its replacement: given the code unit
  before the position (none at the start of the string, for \<^verbatim>\<open>^\<close>) and the text from
  the position on, it returns the replacement text and the text behind the match. A
  match that consumes nothing is followed by one copied code unit, as in JavaScript.
\<close>

type_synonym matcher = "char option \<Rightarrow> string \<Rightarrow> (string \<times> string) option"

function replaceGlobal :: "matcher \<Rightarrow> char option \<Rightarrow> string \<Rightarrow> string" where
  "replaceGlobal m prev s =
     (case m prev s of
        Some (r, rest) \<Rightarrow>
          if length rest < length s
          then r @ replaceGlobal m (Some (s ! (length s - length rest - 1))) rest
          else (case s of [] \<Rightarrow> r | c # cs \<Rightarrow> r @ c # replaceGlobal m (Some c) cs)
      | None \<Rightarrow>
          (case s of [] \<Rightarrow> [] | c # cs \<Rightarrow> c # replaceGlobal m (Some c) cs))"
  by pat_completeness auto
termination
  by (relation "measure (\<lambda>(m, prev, s). length s)") auto

declare replaceGlobal.simps [simp del]

text \<open>\<^verbatim>\<open>^\<close> with the \<^verbatim>\<open>m\<close> flag: the start of the input or just behind a line terminator.\<close>

definition atLineStart :: "char option \<Rightarrow> bool" where
  "atLineStart prev = (case prev of None \<Rightarrow> True | Some c \<Rightarrow> isLineTerminator c)"

subsection \<open>The passes of \<^verbatim>\<open>parseMarkdown\<close>\<close>

definition escapeChar :: "char \<Rightarrow> string" where
  \<open>escapeChar c =
     (if c = CHR ''&'' then ''&amp;''
      else if c = CHR ''<'' then ''&lt;''
      else if c = CHR ''>'' then ''&gt;''
      else if c = CHR 0x22 then ''&quot;''
      else if c = CHR 0x27 then ''&#039;''
      else [c])\<close>

text \<open>\<^verbatim>\<open>text.replace(/[&<>"']/g, (m) => map[m])\<close>: each of the five characters is replaced.\<close>

definition escapeHtml :: "string \<Rightarrow> string" where
  "escapeHtml text = concat (map escapeChar text)"

text \<open>
  Code blocks, \<^verbatim>\<open>/```(\w+)?\n([\s\S]*?)```/g\<close>. After the three backticks the greedy
  \<^verbatim>\<open>(\w+)?\<close> takes the whole run of word characters; a shorter run would be followed
  by a word character, never by the line feed the pattern asks for next, so backtracking
  finds nothing more. An empty run leaves \<^verbatim>\<open>lang\<close> undefined and
  \<^verbatim>\<open>lang || "typescript"\<close> gives the default.
\<close>

definition matchCodeBlock :: matcher where
  \<open>matchCodeBlock prev s =
     (case literal ''```'' s of
        None \<Rightarrow> None
      | Some s1 \<Rightarrow>
          (let lang = takeWhile isWordChar s1 in
           case literal [CHR 0x0A] (dropWhile isWordChar s1) of
             None \<Rightarrow> None
           | Some s2 \<Rightarrow>
               (case lazyUntil ''```'' s2 of
                  None \<Rightarrow> None
                | Some (code, rest) \<Rightarrow>
                    Some (''<pre class="bg-gray-900 text-gray-100 p-4 rounded-lg overflow-x-auto my-4"><code class="language-''
                            @ (if lang = [] then ''typescript'' else lang) @ ''">''
                            @ escapeHtml (trim code) @ ''</code></pre>'',
                          rest))))\<close>

text \<open>
  Inline code, \<^verbatim>\<open>/`([^`]+)`/g\<close>: a backtick, the whole non-empty run of other
  characters, a backtick.
\<close>

definition matchInlineCode :: matcher where
  \<open>matchInlineCode prev s =
     (case literal ''`'' s of
        None \<Rightarrow> None
      | Some s1 \<Rightarrow>
          (let g1 = takeWhile notBacktick s1 in
           if g1 = [] then None
           else (case literal ''`'' (dropWhile notBacktick s1) of
                   None \<Rightarrow> None
                 | Some rest \<Rightarrow>
                     Some (''<code class="px-2 py-1 bg-gray-100 dark:bg-gray-800 rounded text-sm">''
                             @ g1 @ ''</code>'', rest))))\<close>

text \<open>
  Headers and list items, \<^verbatim>\<open>/^### (.*)$/gm\<close> and its like: at a line start, the marker,
  then the rest of the line (\<^verbatim>\<open>.*\<close> stops at a line terminator or at the end, where
  \<^verbatim>\<open>$\<close> holds). The replacement is built from the captured text by \<open>repl\<close>.
\<close>

definition matchLine :: "string \<Rightarrow> (string \<Rightarrow> string) \<Rightarrow> matcher" where
  "matchLine marker repl prev s =
     (if atLineStart prev
      then (case literal marker s of
              None \<Rightarrow> None
            | Some s1 \<Rightarrow>
                Some (repl (takeWhile notLineTerminator s1), dropWhile notLineTerminator s1))
      else None)"

definition h3 :: "string \<Rightarrow> string" where
  \<open>h3 g1 = ''<h3 id="'' @ g1 @ ''" class="text-2xl font-bold mt-8 mb-4">'' @ g1 @ ''</h3>''\<close>

definition h2 :: "string \<Rightarrow> string" where
  \<open>h2 g1 = ''<h2 id="'' @ g1 @ ''" class="text-3xl font-bold mt-12 mb-6">'' @ g1 @ ''</h2>''\<close>

definition h1 :: "string \<Rightarrow> string" where
  \<open>h1 g1 = ''<h1 class="text-4xl font-bold mt-8 mb-6">'' @ g1 @ ''</h1>''\<close>

definition li :: "string \<Rightarrow> string" where
  \<open>li g1 = ''<li class="ml-4">'' @ g1 @ ''</li>''\<close>

text \<open>
  Bold, \<^verbatim>\<open>/\*\*([^*]+)\*\*/g\<close>: two stars, the whole non-empty run of other characters,
  two stars.
\<close>

definition matchBold :: matcher where
  \<open>matchBold prev s =
     (case literal ''**'' s of
        None \<Rightarrow> None
      | Some s1 \<Rightarrow>
          (let g1 = takeWhile notStar s1 in
           if g1 = [] then None
           else (case literal ''**'' (dropWhile notStar s1) of
                   None \<Rightarrow> None
                 | Some rest \<Rightarrow> Some (''<strong class="font-bold">'' @ g1 @ ''</strong>'', rest))))\<close>

text \<open>
  Lists. The first pattern, \<^verbatim>\<open>/^- (.*)$/gm\<close>, is a line pattern with the marker
  \<^verbatim>\<open>- \<close>. The second is \<^verbatim>\<open>/(<li.*<\/li>\s*)+/g\<close>. One round of its group is
  \<^verbatim>\<open><li\<close>, then the greedy \<^verbatim>\<open>.*\<close> inside the line up to the last \<^verbatim>\<open></li>\<close> of
  that line, then all the white space that follows. Nothing stands behind the group, so a
  finished round is never reopened: the rounds are repeated while one more matches.
\<close>

definition liGroup :: "string \<Rightarrow> (string \<times> string) option" where
  \<open>liGroup s =
     (case literal ''<li'' s of
        None \<Rightarrow> None
      | Some s1 \<Rightarrow>
          (case greedyUntil ''</li>'' (takeWhile notLineTerminator s1) of
             None \<Rightarrow> None
           | Some (inner, after) \<Rightarrow>
               (let behind = after @ dropWhile notLineTerminator s1 in
                Some (''<li'' @ inner @ ''</li>'' @ takeWhile isSpace behind,
                      dropWhile isSpace behind))))\<close>

text \<open>
  The text matched by all rounds and the text behind it. Each round consumes at least
  \<^verbatim>\<open><li</li>\<close>, so the test on the lengths always succeeds; it is what makes the
  recursion terminate.
\<close>

function liGroups :: "string \<Rightarrow> (string \<times> string) option" where
  "liGroups s =
     (case liGroup s of
        None \<Rightarrow> None
      | Some (m1, r1) \<Rightarrow>
          if length r1 < length s
          then (case liGroups r1 of
                  None \<Rightarrow> Some (m1, r1)
                | Some (m2, r2) \<Rightarrow> Some (m1 @ m2, r2))
          else Some (m1, r1))"
  by pat_completeness auto
termination
  by (relation "measure length") auto

declare liGroups.simps [simp del]

definition matchListRun :: matcher where
  \<open>matchListRun prev s =
     (case liGroups s of
        None \<Rightarrow> None
      | Some (m, rest) \<Rightarrow>
          Some (''<ul class="list-disc list-inside space-y-2 my-4">'' @ m @ ''</ul>'', rest))\<close>

text \<open>
  Paragraphs. \<^verbatim>\<open>html.split("\n\n")\<close> cuts at each pair of line feeds, from the left and
  without overlap; the empty string gives one empty piece.
\<close>

fun splitParagraphs :: "string \<Rightarrow> string list" where
  "splitParagraphs (a # b # cs) =
     (if a = CHR 0x0A \<and> b = CHR 0x0A then [] # splitParagraphs cs
      else (case splitParagraphs (b # cs) of
              [] \<Rightarrow> [[a]]
            | p # ps \<Rightarrow> (a # p) # ps))"
| "splitParagraphs [a] = [[a]]"
| "splitParagraphs [] = [[]]"

definition wrapPara :: "string \<Rightarrow> string" where
  \<open>wrapPara para =
     (if startsWith (trim para) ''<'' then para
      else if trim para = [] then []
      else ''<div class="mb-4 leading-relaxed">'' @ para @ ''</div>'')\<close>

text \<open>\<^verbatim>\<open>.join("\n")\<close>\<close>

fun joinLines :: "string list \<Rightarrow> string" where
  "joinLines [] = []"
| "joinLines [x] = x"
| "joinLines (x # y # ys) = x @ CHR 0x0A # joinLines (y # ys)"

text \<open>
  \<^verbatim>\<open>parseMarkdown\<close>: the empty string is returned at once (\<^verbatim>\<open>!markdown\<close>); otherwise
  the passes rewrite \<^verbatim>\<open>html\<close> one after the other, each on the output of the one before.
\<close>

definition parseMarkdown :: "string \<Rightarrow> string" where
  "parseMarkdown markdown =
     (if markdown = [] then []
      else
        (let html = markdown;
             html = replaceGlobal matchCodeBlock None html;
             html = replaceGlobal matchInlineCode None html;
             html = replaceGlobal (matchLine ''### '' h3) None html;
             html = replaceGlobal (matchLine ''## '' h2) None html;
             html = replaceGlobal (matchLine ''# '' h1) None html;
             html = replaceGlobal matchBold None html;
             html = replaceGlobal (matchLine ''- '' li) None html;
             html = replaceGlobal matchListRun None html
         in joinLines (map wrapPara (splitParagraphs html))))"

section \<open>The content endpoint\<close>

text \<open>
  The route handler \<^verbatim>\<open>GET\<close> behind \<^verbatim>\<open>/api/content/[filename]\<close>; its text stands in
  \<^verbatim>\<open>src/app/components/hero.tsx\<close>, lines 344 to 367.

  The handler reads \<^verbatim>\<open>path.join(process.cwd(), "app", "data", "content", filename)\<close>.
  \<^verbatim>\<open>path.join\<close> belongs to Node's library; its POSIX form is modelled here on lists of
  segments. It glues its arguments with \<^verbatim>\<open>/\<close> and normalises the result: empty segments
  and \<^verbatim>\<open>.\<close> are dropped, \<^verbatim>\<open>..\<close> removes the segment before it (nothing at the root),
  and a separator at the very end is kept. \<^verbatim>\<open>process.cwd()\<close> is an absolute, normalised
  path, given as its list of segments.
\<close>

type_synonym path = "string list"

fun splitSlash :: "string \<Rightarrow> string list" where
  "splitSlash [] = [[]]"
| "splitSlash (c # cs) =
     (if c = CHR ''/'' then [] # splitSlash cs
      else (case splitSlash cs of
              [] \<Rightarrow> [[c]]
            | p # ps \<Rightarrow> (c # p) # ps))"

fun joinWith :: "string list \<Rightarrow> string" where
  "joinWith [] = []"
| "joinWith [x] = x"
| "joinWith (x # y # ys) = x @ CHR ''/'' # joinWith (y # ys)"

fun normalizeSegments :: "path \<Rightarrow> string list \<Rightarrow> path" where
  "normalizeSegments acc [] = acc"
| "normalizeSegments acc (seg # segs) =
     (if seg = [] \<or> seg = ''.'' then normalizeSegments acc segs
      else if seg = ''..'' then normalizeSegments (butlast acc) segs
      else normalizeSegments (acc @ [seg]) segs)"

text \<open>The joined path: its segments, and whether it ends with a separator.\<close>

definition pathJoin :: "path \<Rightarrow> string list \<Rightarrow> path \<times> bool" where
  "pathJoin cwd args =
     (let joined = joinWith (filter (\<lambda>a. a \<noteq> []) args)
      in (normalizeSegments cwd (splitSlash joined), joined \<noteq> [] \<and> last joined = CHR ''/''))"

text \<open>
  The file system is a parameter: the text of the regular file at a path, if there is one
  that can be read. \<^verbatim>\<open>fs.readFile\<close> rejects for every other path, and for a path that
  ends with a separator, which never names a regular file.
\<close>

type_synonym filesystem = "path \<Rightarrow> string option"

definition readFile :: "filesystem \<Rightarrow> path \<times> bool \<Rightarrow> string option" where
  "readFile fs filePath = (if snd filePath then None else fs (fst filePath))"

text \<open>
  The response: the HTTP status and the fields of the JSON body
  (\<^verbatim>\<open>{ content }\<close> or \<^verbatim>\<open>{ error: "Content not found" }\<close>).
\<close>

record response =
  status :: nat
  contentField :: "string option"
  errorField :: "string option"

definition GET :: "path \<Rightarrow> filesystem \<Rightarrow> string \<Rightarrow> response" where
  "GET cwd fs filename =
     (let filePath = pathJoin cwd [''app'', ''data'', ''content'', filename]
      in case readFile fs filePath of
           Some text \<Rightarrow> \<lparr>status = 200, contentField = Some text, errorField = None\<rparr>
         | None \<Rightarrow> \<lparr>status = 404, contentField = None, errorField = Some ''Content not found''\<rparr>)"

section \<open>The content loader\<close>

text \<open>
  The component \<^verbatim>\<open>BlogPostPage\<close> of \<^verbatim>\<open>src/app/blog/[slug]/page.tsx\<close>: its state and
  effect (lines 17 to 40) and the choice of what it shows (lines 42 to 57 and 123 to 168).

  What the promise chain \<^verbatim>\<open>fetch(url).then((res) => res.json()).then((data) => ...)\<close>
  can meet: \<^verbatim>\<open>fetch\<close> rejects; \<^verbatim>\<open>res.json()\<close> rejects; the body is the JSON
  \<^verbatim>\<open>null\<close>, on which \<^verbatim>\<open>data.content\<close> throws a TypeError; or the body is a JSON
  value with or without a \<^verbatim>\<open>content\<close> field. The chain is modelled by its outcome; the
  time at which it settles is not.
\<close>

datatype fetch_result =
    FetchRejected string
  | JsonRejected string
  | JsonNull
  | JsonData "string option"

text \<open>
  The state of \<^verbatim>\<open>BlogPostPage\<close>: the two \<^verbatim>\<open>useState\<close> cells, \<open>content'\<close> for
  \<^verbatim>\<open>content\<close> (\<open>None\<close> is \<^verbatim>\<open>null\<close> or \<^verbatim>\<open>undefined\<close>), together with the URLs
  handed to \<^verbatim>\<open>fetch\<close> and the pairs handed to \<^verbatim>\<open>console.error\<close>, in order.
\<close>

record page_state =
  content' :: "string option"
  loading :: bool
  fetched :: "string list"
  logged :: "(string \<times> string) list"

definition initialState :: page_state where
  "initialState = \<lparr>content' = None, loading = True, fetched = [], logged = []\<rparr>"

text \<open>A string that JavaScript takes for true: defined and not empty.\<close>

definition truthy :: "string option \<Rightarrow> bool" where
  "truthy v = (case v of None \<Rightarrow> False | Some s \<Rightarrow> s \<noteq> [])"

text \<open>The \<^verbatim>\<open>catch\<close> handler.\<close>

definition catchError :: "string \<Rightarrow> page_state \<Rightarrow> page_state" where
  "catchError e st = st\<lparr>logged := logged st @ [(''Error loading content:'', e)], loading := False\<rparr>"

text \<open>
  The effect, run with \<^verbatim>\<open>blog\<close> (\<open>None\<close> when the slug was not found):
  \<^verbatim>\<open>blog?.contentFile\<close> decides between the fetch and
  \<^verbatim>\<open>setContent(blog?.content || null)\<close>.
\<close>

definition useEffect :: "(string \<Rightarrow> fetch_result) \<Rightarrow> Blog option \<Rightarrow> page_state \<Rightarrow> page_state" where
  "useEffect fetch blog st =
     (if truthy (Option.bind blog contentFile)
      then
        (case Option.bind blog contentFile of
           None \<Rightarrow> st
         | Some file \<Rightarrow>
             (let url = ''/api/content/'' @ file;
                  st1 = st\<lparr>fetched := fetched st @ [url]\<rparr>
              in case fetch url of
                   JsonData c \<Rightarrow> st1\<lparr>content' := c, loading := False\<rparr>
                 | JsonNull \<Rightarrow> catchError ''TypeError'' st1
                 | JsonRejected e \<Rightarrow> catchError e st1
                 | FetchRejected e \<Rightarrow> catchError e st1))
      else
        st\<lparr>content' := (if truthy (Option.bind blog content) then Option.bind blog content else None),
           loading := False\<rparr>)"

text \<open>
  What the page shows in its content area: the not-found page when there is no record,
  the spinner while loading, the rendered Markdown when \<^verbatim>\<open>content\<close> is a non-empty
  string, the ``Coming Soon!'' placeholder otherwise.
\<close>

datatype view = NotFoundPage | Spinner | Html string | ComingSoon

definition render :: "Blog option \<Rightarrow> page_state \<Rightarrow> view" where
  "render blog st =
     (case blog of
        None \<Rightarrow> NotFoundPage
      | Some b \<Rightarrow>
          if loading st then Spinner
          else (case content' st of
                  None \<Rightarrow> ComingSoon
                | Some c \<Rightarrow> if c = [] then ComingSoon else Html (parseMarkdown c)))"

text \<open>
  What the chain settles with once a request has reached the handler: \<^verbatim>\<open>fetch\<close>
  resolves whatever the status of the response, and \<^verbatim>\<open>res.json()\<close> parses the JSON body
  the handler wrote, so \<^verbatim>\<open>data.content\<close> is the \<^verbatim>\<open>content\<close> field of that body. How
  a URL is routed to the handler is not modelled: a statement about the endpoint's answer
  assumes that \<^verbatim>\<open>fetch\<close> settled with the handler's response for the file name.
\<close>

definition resJson :: "response \<Rightarrow> fetch_result" where
  "resJson res = JsonData (contentField res)"

section \<open>Notions used in the statements\<close>

text \<open>
  The passes of \<^const>\<open>parseMarkdown\<close> that follow the inline-code pass, as one function
  of the text that pass produced, and the passes that follow the code-block pass.
\<close>

definition afterInlineCode :: "string \<Rightarrow> string" where
  "afterInlineCode html0 =
     (let html = replaceGlobal (matchLine ''### '' h3) None html0;
          html = replaceGlobal (matchLine ''## '' h2) None html;
          html = replaceGlobal (matchLine ''# '' h1) None html;
          html = replaceGlobal matchBold None html;
          html = replaceGlobal (matchLine ''- '' li) None html;
          html = replaceGlobal matchListRun None html
      in joinLines (map wrapPara (splitParagraphs html)))"

definition afterCodeBlocks :: "string \<Rightarrow> string" where
  "afterCodeBlocks html0 = afterInlineCode (replaceGlobal matchInlineCode None html0)"

text \<open>The number of positions of a text at which a given piece starts.\<close>

fun occurrences :: "string \<Rightarrow> string \<Rightarrow> nat" where
  "occurrences [] p = (if p = [] then 1 else 0)"
| "occurrences (c # cs) p = (if startsWith (c # cs) p then 1 else 0) + occurrences cs p"

text \<open>
  A simple file name: not empty, without a separator, and neither \<^verbatim>\<open>.\<close> nor \<^verbatim>\<open>..\<close>.
\<close>

definition simpleName :: "string \<Rightarrow> bool" where
  "simpleName f = (f \<noteq> [] \<and> CHR ''/'' \<notin> set f \<and> f \<noteq> ''.'' \<and> f \<noteq> ''..'')"

text \<open>
  Sample data: a record with a given slug, inline content and content file; a
  \<^verbatim>\<open>fetch\<close> that settles with a given outcome for \<^verbatim>\<open>/api/content/post.md\<close> and
  rejects for every other URL; a file system with one content file and, next to the
  content directory, the data file.
\<close>

definition exampleBlog :: "string \<Rightarrow> string option \<Rightarrow> string option \<Rightarrow> Blog" where
  "exampleBlog s c f =
     \<lparr>id' = ''1'', title = ''A'', description = '''', category = ''Testing'', readTime = ''5 min'',
      date = ''2026'', views = ''0'', comments = 0, tags = [], slug = s, content = c,
      contentFile = f\<rparr>"

definition exampleFetch :: "fetch_result \<Rightarrow> string \<Rightarrow> fetch_result" where
  "exampleFetch r url = (if url = ''/api/content/post.md'' then r else FetchRejected ''offline'')"

definition exampleFs :: filesystem where
  "exampleFs p =
     (if p = [''srv'', ''app'', ''data'', ''content'', ''post.md''] then Some ''# Title''
      else if p = [''srv'', ''app'', ''data'', ''blogs.json''] then Some ''[]''
      else None)"

text \<open>A file system without any file that can be read.\<close>

definition emptyFs :: filesystem where
  "emptyFs p = None"

section \<open>Properties of the registry\<close>

lemma find_slug_first:
  "find (\<lambda>blog. slug blog = s) blogs = Some r \<Longrightarrow> r \<in> set blogs \<and> slug r = s"
  by (induction blogs) (auto split: if_splits)

lemma find_slug_unique:
  "distinct (map slug blogs) \<Longrightarrow> b \<in> set blogs \<Longrightarrow>
   find (\<lambda>blog. slug blog = slug b) blogs = Some b"
proof (induction blogs)
  case Nil
  then show ?case by simp
next
  case (Cons a blogs)
  show ?case
  proof (cases "slug a = slug b")
    case True
    with Cons.prems have "a = b" by (auto simp: image_iff)
    then show ?thesis by simp
  next
    case False
    with Cons show ?thesis by auto
  qed
qed

text \<open>
  Claim C1. Whenever \<open>s\<close> is the slug of some record of the data, \<^const>\<open>getBlogBySlug\<close>
  returns a record of the data whose slug is exactly \<open>s\<close>; when the slugs of the data are
  pairwise different, as the data model demands, it is the one record with that slug.
  The comparison is equality of strings, without any normalisation. For a string that is
  no record's slug the result is \<open>None\<close>, the model of \<^verbatim>\<open>undefined\<close>; the function
  is total, so nothing is thrown.
\<close>

theorem getBlogBySlug_correct:
  "(s \<in> slug ` set blogs \<longrightarrow>
      (\<exists>r. getBlogBySlug blogs s = Some r \<and> r \<in> set blogs \<and> slug r = s \<and>
           (distinct (map slug blogs) \<longrightarrow> (\<forall>b \<in> set blogs. slug b = s \<longrightarrow> r = b)))) \<and>
   (s \<notin> slug ` set blogs \<longrightarrow> getBlogBySlug blogs s = None)"
proof (intro conjI impI)
  assume "s \<in> slug ` set blogs"
  then obtain b where b: "b \<in> set blogs" "slug b = s" by auto
  then have "find (\<lambda>blog. slug blog = s) blogs \<noteq> None"
    by (auto simp: find_None_iff)
  then obtain r where r: "find (\<lambda>blog. slug blog = s) blogs = Some r" by auto
  from find_slug_first [OF r] have rin: "r \<in> set blogs" "slug r = s" by auto
  have uniq: "distinct (map slug blogs) \<longrightarrow> (\<forall>b \<in> set blogs. slug b = s \<longrightarrow> r = b)"
  proof (intro impI ballI)
    fix b' assume d: "distinct (map slug blogs)" and b': "b' \<in> set blogs" "slug b' = s"
    from find_slug_unique [OF d b'(1)] b'(2) r show "r = b'" by simp
  qed
  from r rin uniq
  show "\<exists>r. getBlogBySlug blogs s = Some r \<and> r \<in> set blogs \<and> slug r = s \<and>
           (distinct (map slug blogs) \<longrightarrow> (\<forall>b \<in> set blogs. slug b = s \<longrightarrow> r = b))"
    by (auto simp: getBlogBySlug_def)
next
  assume "s \<notin> slug ` set blogs"
  then show "getBlogBySlug blogs s = None"
    by (auto simp: getBlogBySlug_def find_None_iff)
qed

text \<open>
  On a registry of two records the slug \<^verbatim>\<open>b\<close> finds the second record, and \<^verbatim>\<open>B\<close>,
  which differs from it in case only, finds nothing.
\<close>

theorem getBlogBySlug_correct_witness:
  "getBlogBySlug [exampleBlog ''a'' None None, exampleBlog ''b'' None None] ''b''
     = Some (exampleBlog ''b'' None None) \<and>
   getBlogBySlug [exampleBlog ''a'' None None, exampleBlog ''b'' None None] ''B'' = None"
proof -
  let ?blogs = "[exampleBlog ''a'' None None, exampleBlog ''b'' None None]"
  have d: "distinct (map slug ?blogs)" by (simp add: exampleBlog_def)
  have m: "''b'' \<in> slug ` set ?blogs" by (simp add: exampleBlog_def)
  have n: "''B'' \<notin> slug ` set ?blogs" by (simp add: exampleBlog_def)
  have bin: "exampleBlog ''b'' None None \<in> set ?blogs" by simp
  have sb: "slug (exampleBlog ''b'' None None) = ''b''" by (simp add: exampleBlog_def)
  from getBlogBySlug_correct [of "''b''" ?blogs] m d bin sb
  have "getBlogBySlug ?blogs ''b'' = Some (exampleBlog ''b'' None None)" by blast
  moreover from getBlogBySlug_correct [of "''B''" ?blogs] n
  have "getBlogBySlug ?blogs ''B'' = None" by blast
  ultimately show ?thesis by simp
qed

section \<open>Properties of the renderer\<close>

lemma literal_append [simp]: "literal p (p @ s) = Some s"
  by (induction p) auto

lemma literal_SomeD: "literal p s = Some r \<Longrightarrow> s = p @ r"
  by (induction p s rule: literal.induct) (auto split: if_splits)

lemma lazyUntil_SomeD: "lazyUntil p s = Some (b, r) \<Longrightarrow> s = b @ p @ r"
  by (induction s arbitrary: b) (auto split: option.splits dest: literal_SomeD)

lemma literal_fence_None:
  "\<not> startsWith (c # cs @ ''``'') ''```'' \<Longrightarrow> literal ''```'' (c # cs @ ''```'' @ B) = None"
  by (cases cs; cases "tl cs") auto

lemma lazyUntil_fence:
  "\<not> includes' (code @ ''``'') ''```'' \<Longrightarrow> lazyUntil ''```'' (code @ ''```'' @ B) = Some (code, B)"
proof (induction code)
  case Nil
  show ?case by simp
next
  case (Cons c cs)
  from Cons.prems have a: "\<not> startsWith (c # cs @ ''``'') ''```''" and b: "\<not> includes' (cs @ ''``'') ''```''"
    by auto
  from literal_fence_None [OF a] have "literal ''```'' (c # cs @ ''```'' @ B) = None" .
  with Cons.IH [OF b] show ?case by simp
qed

lemma replaceGlobal_copy:
  "m prev (c # s) = None \<Longrightarrow> replaceGlobal m prev (c # s) = c # replaceGlobal m (Some c) s"
  by (subst replaceGlobal.simps) simp

lemma replaceGlobal_match:
  "m prev s = Some (r, rest) \<Longrightarrow> length rest < length s \<Longrightarrow>
   replaceGlobal m prev s = r @ replaceGlobal m (Some (s ! (length s - length rest - 1))) rest"
  by (subst replaceGlobal.simps) simp

lemma replaceGlobal_prev:
  assumes "\<And>p q t. m p t = m q t"
  shows "replaceGlobal m p s = replaceGlobal m q s"
proof (induction s arbitrary: p q rule: length_induct)
  case (1 s)
  have eq: "m p s = m q s" by (rule assms)
  show ?case
  proof (cases "m q s")
    case None
    with eq have n: "m p s = None" by simp
    show ?thesis
    proof (cases s)
      case Nil
      with n None show ?thesis by (simp add: replaceGlobal.simps)
    next
      case (Cons c cs)
      with n None show ?thesis by (simp add: replaceGlobal_copy)
    qed
  next
    case (Some a)
    then obtain r rest where a: "m q s = Some (r, rest)" by (cases a) auto
    with eq have b: "m p s = Some (r, rest)" by simp
    show ?thesis
    proof (cases "length rest < length s")
      case True
      from 1 True have "replaceGlobal m (Some (s ! (length s - length rest - 1))) rest
          = replaceGlobal m (Some (s ! (length s - length rest - 1))) rest" by simp
      with a b True show ?thesis by (simp add: replaceGlobal_match)
    next
      case False
      show ?thesis
      proof (cases s)
        case Nil
        with a b show ?thesis by (simp add: replaceGlobal.simps)
      next
        case (Cons c cs)
        with a b False show ?thesis
          by (subst replaceGlobal.simps, subst (2) replaceGlobal.simps) simp
      qed
    qed
  qed
qed

lemma matchCodeBlock_not_backtick:
  "c \<noteq> CHR ''`'' \<Longrightarrow> matchCodeBlock prev (c # s) = None"
  by (simp add: matchCodeBlock_def)

lemma matchCodeBlock_no_fence: "literal ''```'' s = None \<Longrightarrow> matchCodeBlock prev s = None"
  by (simp add: matchCodeBlock_def)

lemma codeBlocks_prefix:
  "\<not> includes' (A @ ''``'') ''```'' \<Longrightarrow>
   replaceGlobal matchCodeBlock prev (A @ ''```'' @ R) = A @ replaceGlobal matchCodeBlock None (''```'' @ R)"
proof (induction A arbitrary: prev)
  case Nil
  have "replaceGlobal matchCodeBlock prev (''```'' @ R) = replaceGlobal matchCodeBlock None (''```'' @ R)"
    by (rule replaceGlobal_prev) (simp add: matchCodeBlock_def)
  then show ?case by simp
next
  case (Cons c A)
  from Cons.prems have a: "\<not> startsWith (c # A @ ''``'') ''```''" and b: "\<not> includes' (A @ ''``'') ''```''"
    by auto
  have "matchCodeBlock prev (c # A @ ''```'' @ R) = None"
    by (rule matchCodeBlock_no_fence) (rule literal_fence_None [OF a])
  then have "replaceGlobal matchCodeBlock prev (c # A @ ''```'' @ R)
      = c # replaceGlobal matchCodeBlock (Some c) (A @ ''```'' @ R)"
    by (rule replaceGlobal_copy)
  with Cons.IH [OF b] show ?case by simp
qed

lemma not_word_newline: "\<not> isWordChar (CHR 0x0A)"
  by (simp add: isWordChar_def)

lemma matchCodeBlock_block:
  assumes "\<forall>c \<in> set lang. isWordChar c" and "\<not> includes' (code @ ''``'') ''```''"
  shows \<open>matchCodeBlock prev (''```'' @ lang @ CHR 0x0A # code @ ''```'' @ B) =
     Some (''<pre class="bg-gray-900 text-gray-100 p-4 rounded-lg overflow-x-auto my-4"><code class="language-''
             @ (if lang = [] then ''typescript'' else lang) @ ''">''
             @ escapeHtml (trim code) @ ''</code></pre>'', B)\<close>
proof -
  have t: "takeWhile isWordChar (lang @ CHR 0x0A # code @ ''```'' @ B) = lang"
    using assms(1) by (simp add: not_word_newline)
  have d: "dropWhile isWordChar (lang @ CHR 0x0A # code @ ''```'' @ B) = CHR 0x0A # code @ ''```'' @ B"
    using assms(1) by (simp add: not_word_newline)
  have l: "literal ''```'' (''```'' @ lang @ CHR 0x0A # code @ ''```'' @ B) = Some (lang @ CHR 0x0A # code @ ''```'' @ B)"
    by (rule literal_append)
  show ?thesis
    unfolding matchCodeBlock_def l option.case Let_def t d
    using lazyUntil_fence [OF assms(2), of B] by simp
qed

lemma parseMarkdown_passes:
  "m \<noteq> [] \<Longrightarrow> parseMarkdown m = afterCodeBlocks (replaceGlobal matchCodeBlock None m)"
  by (simp add: parseMarkdown_def afterCodeBlocks_def afterInlineCode_def Let_def)

lemma replaceGlobal_Nil: "m prev [] = None \<Longrightarrow> replaceGlobal m prev [] = []"
  by (subst replaceGlobal.simps) simp

lemma codeBlocks_block:
  assumes "\<not> includes' (A @ ''``'') ''```''" and "\<forall>c \<in> set lang. isWordChar c"
    and "\<not> includes' (code @ ''``'') ''```''"
  shows \<open>replaceGlobal matchCodeBlock None (A @ ''```'' @ lang @ CHR 0x0A # code @ ''```'' @ B) =
     A @ ''<pre class="bg-gray-900 text-gray-100 p-4 rounded-lg overflow-x-auto my-4"><code class="language-''
       @ (if lang = [] then ''typescript'' else lang) @ ''">''
       @ escapeHtml (trim code) @ ''</code></pre>'' @ replaceGlobal matchCodeBlock None B\<close>
proof -
  let ?s = "''```'' @ lang @ CHR 0x0A # code @ ''```'' @ B"
  let ?r = \<open>''<pre class="bg-gray-900 text-gray-100 p-4 rounded-lg overflow-x-auto my-4"><code class="language-''
       @ (if lang = [] then ''typescript'' else lang) @ ''">''
       @ escapeHtml (trim code) @ ''</code></pre>''\<close>
  have m: "matchCodeBlock None ?s = Some (?r, B)"
    by (rule matchCodeBlock_block [OF assms(2,3)])
  have len: "length B < length ?s" by simp
  have "replaceGlobal matchCodeBlock None ?s
          = ?r @ replaceGlobal matchCodeBlock (Some (?s ! (length ?s - length B - 1))) B"
    using m len by (rule replaceGlobal_match [where m = matchCodeBlock and prev = None])
  also have "replaceGlobal matchCodeBlock (Some (?s ! (length ?s - length B - 1))) B
          = replaceGlobal matchCodeBlock None B"
    by (rule replaceGlobal_prev) (simp add: matchCodeBlock_def)
  finally have "replaceGlobal matchCodeBlock None ?s = ?r @ replaceGlobal matchCodeBlock None B" .
  with codeBlocks_prefix [OF assms(1), of None "lang @ CHR 0x0A # code @ ''```'' @ B"]
  show ?thesis by simp
qed

lemma escapeHtml_chars:
  "c \<in> set (escapeHtml t) \<Longrightarrow> c \<noteq> CHR ''<'' \<and> c \<noteq> CHR ''>'' \<and> c \<noteq> CHR 0x22 \<and> c \<noteq> CHR 0x27"
  by (induction t) (auto simp: escapeHtml_def escapeChar_def split: if_splits)

lemma replaceGlobal_plain_prefix:
  assumes "\<And>p c s. c \<in> set A \<Longrightarrow> m p (c # s) = None"
  shows "replaceGlobal m prev (A @ s) = A @ replaceGlobal m (if A = [] then prev else Some (last A)) s"
  using assms
proof (induction A arbitrary: prev)
  case Nil
  show ?case by simp
next
  case (Cons c A)
  have "replaceGlobal m prev (c # A @ s) = c # replaceGlobal m (Some c) (A @ s)"
    by (rule replaceGlobal_copy) (simp add: Cons.prems)
  moreover have "replaceGlobal m (Some c) (A @ s)
      = A @ replaceGlobal m (if A = [] then Some c else Some (last A)) s"
    by (rule Cons.IH) (simp add: Cons.prems)
  ultimately show ?case by simp
qed

lemma matchInlineCode_not_backtick:
  "c \<noteq> CHR ''`'' \<Longrightarrow> matchInlineCode prev (c # s) = None"
  by (simp add: matchInlineCode_def)

lemma matchInlineCode_span:
  assumes "t \<noteq> []" and "CHR ''`'' \<notin> set t"
  shows \<open>matchInlineCode prev (''`'' @ t @ ''`'' @ B) =
     Some (''<code class="px-2 py-1 bg-gray-100 dark:bg-gray-800 rounded text-sm">'' @ t @ ''</code>'', B)\<close>
proof -
  have nb: "\<And>x. x \<in> set t \<Longrightarrow> notBacktick x"
    using assms(2) by (auto simp: notBacktick_def)
  have tw: "takeWhile notBacktick (t @ ''`'' @ B) = t"
    using nb by (simp add: notBacktick_def)
  have dw: "dropWhile notBacktick (t @ ''`'' @ B) = ''`'' @ B"
    using nb by (simp add: notBacktick_def)
  have l: "literal ''`'' (''`'' @ t @ ''`'' @ B) = Some (t @ ''`'' @ B)"
    by (rule literal_append)
  show ?thesis
    unfolding matchInlineCode_def l option.case Let_def tw dw using assms(1) by simp
qed

lemma plain_unchanged:
  assumes "\<And>p c s. c \<in> set B \<Longrightarrow> m p (c # s) = None" and "\<And>p. m p [] = None"
  shows "replaceGlobal m prev B = B"
proof -
  have "replaceGlobal m prev (B @ []) = B @ replaceGlobal m (if B = [] then prev else Some (last B)) []"
    by (rule replaceGlobal_plain_prefix) (rule assms(1))
  then show ?thesis by (simp add: replaceGlobal_Nil assms(2))
qed

lemma codeBlocks_single_backticks:
  assumes "CHR ''`'' \<notin> set A" and "CHR ''`'' \<notin> set t" and "t \<noteq> []" and "CHR ''`'' \<notin> set B"
  shows "replaceGlobal matchCodeBlock None (A @ ''`'' @ t @ ''`'' @ B) = A @ ''`'' @ t @ ''`'' @ B"
proof -
  have plain: "\<And>X p c s. CHR ''`'' \<notin> set X \<Longrightarrow> c \<in> set X \<Longrightarrow> matchCodeBlock p (c # s) = None"
    by (rule matchCodeBlock_not_backtick) auto
  have nil: "\<And>p. matchCodeBlock p [] = None" by (simp add: matchCodeBlock_def)
  from assms(2,3) obtain c t' where t: "t = c # t'" and c: "c \<noteq> CHR ''`''"
    by (cases t) auto
  have open_fails: "\<And>p. matchCodeBlock p (CHR ''`'' # t @ ''`'' @ B) = None"
    using c by (simp add: matchCodeBlock_def t)
  have close_fails: "\<And>p. matchCodeBlock p (CHR ''`'' # B) = None"
    using assms(4) by (cases B) (auto simp: matchCodeBlock_def)
  have b: "\<And>p. replaceGlobal matchCodeBlock p B = B"
    by (rule plain_unchanged) (rule plain [OF assms(4)], assumption, rule nil)
  have "\<And>p. replaceGlobal matchCodeBlock p (CHR ''`'' # B) = CHR ''`'' # B"
    by (simp add: replaceGlobal_copy close_fails b)
  then have "\<And>p. replaceGlobal matchCodeBlock p (t @ CHR ''`'' # B) = t @ CHR ''`'' # B"
    by (simp add: replaceGlobal_plain_prefix [where m = matchCodeBlock, OF plain [OF assms(2)]])
  then have "\<And>p. replaceGlobal matchCodeBlock p (CHR ''`'' # t @ CHR ''`'' # B) = CHR ''`'' # t @ CHR ''`'' # B"
    using open_fails by (simp add: replaceGlobal_copy)
  then show ?thesis
    by (simp add: replaceGlobal_plain_prefix [where m = matchCodeBlock, OF plain [OF assms(1)]])
qed

lemma inlineCode_span:
  assumes "CHR ''`'' \<notin> set A" and "CHR ''`'' \<notin> set t" and "t \<noteq> []" and "CHR ''`'' \<notin> set B"
  shows \<open>replaceGlobal matchInlineCode None (A @ ''`'' @ t @ ''`'' @ B) =
     A @ ''<code class="px-2 py-1 bg-gray-100 dark:bg-gray-800 rounded text-sm">'' @ t @ ''</code>'' @ B\<close>
proof -
  let ?s = "''`'' @ t @ ''`'' @ B"
  let ?r = \<open>''<code class="px-2 py-1 bg-gray-100 dark:bg-gray-800 rounded text-sm">'' @ t @ ''</code>''\<close>
  have plain: "\<And>X p c s. CHR ''`'' \<notin> set X \<Longrightarrow> c \<in> set X \<Longrightarrow> matchInlineCode p (c # s) = None"
    by (rule matchInlineCode_not_backtick) auto
  have nil: "\<And>p. matchInlineCode p [] = None" by (simp add: matchInlineCode_def)
  have b: "\<And>p. replaceGlobal matchInlineCode p B = B"
    by (rule plain_unchanged) (rule plain [OF assms(4)], assumption, rule nil)
  have m: "\<And>p. matchInlineCode p ?s = Some (?r, B)"
    by (rule matchInlineCode_span [OF assms(3,2)])
  have len: "length B < length ?s" by simp
  have "\<And>p. replaceGlobal matchInlineCode p ?s = ?r @ B"
  proof -
    fix p
    have "replaceGlobal matchInlineCode p ?s
        = ?r @ replaceGlobal matchInlineCode (Some (?s ! (length ?s - length B - 1))) B"
      using m len by (rule replaceGlobal_match [where m = matchInlineCode])
    then show "replaceGlobal matchInlineCode p ?s = ?r @ B" by (simp only: b)
  qed
  then show ?thesis
    by (simp add: replaceGlobal_plain_prefix [where m = matchInlineCode, OF plain [OF assms(1)]])
qed

lemma dropWhile_trim:
  "dropWhile isSpace code = trim code @ rev (takeWhile isSpace (rev (dropWhile isSpace code)))"
proof -
  let ?d = "dropWhile isSpace code"
  have "rev (dropWhile isSpace (rev ?d)) @ rev (takeWhile isSpace (rev ?d))
      = rev (takeWhile isSpace (rev ?d) @ dropWhile isSpace (rev ?d))"
    by (simp only: rev_append)
  also have "\<dots> = ?d"
    by (simp only: takeWhile_dropWhile_id rev_rev_ident)
  finally show ?thesis by (simp only: trim_def)
qed

lemma trim_decomposition:
  "code = takeWhile isSpace code @ trim code @ rev (takeWhile isSpace (rev (dropWhile isSpace code)))"
proof -
  have "code = takeWhile isSpace code @ dropWhile isSpace code"
    by (simp only: takeWhile_dropWhile_id)
  also have "dropWhile isSpace code
      = trim code @ rev (takeWhile isSpace (rev (dropWhile isSpace code)))"
    by (rule dropWhile_trim)
  finally show ?thesis .
qed

lemma trim_last: "trim code \<noteq> [] \<Longrightarrow> \<not> isSpace (last (trim code))"
  by (simp add: trim_def last_rev hd_dropWhile)

lemma trim_hd: "trim code \<noteq> [] \<Longrightarrow> \<not> isSpace (hd (trim code))"
proof -
  assume ne: "trim code \<noteq> []"
  let ?d = "dropWhile isSpace code"
  have d: "?d = trim code @ rev (takeWhile isSpace (rev ?d))"
    by (rule dropWhile_trim)
  with ne have "?d \<noteq> []" by (metis Nil_is_append_conv)
  then have "\<not> isSpace (hd ?d)" by (rule hd_dropWhile)
  moreover from d ne have "hd ?d = hd (trim code)" by (metis hd_append2)
  ultimately show ?thesis by simp
qed

lemma trim_sandwich:
  assumes "\<forall>c \<in> set ws1. isSpace c" and "\<forall>c \<in> set ws2. isSpace c"
    and "core \<noteq> []" and "\<not> isSpace (hd core)" and "\<not> isSpace (last core)"
  shows "trim (ws1 @ core @ ws2) = core"
proof -
  from assms(3) obtain c cs where core: "core = c # cs" by (cases core) auto
  with assms(4) have c: "\<not> isSpace c" by simp
  have d: "dropWhile isSpace (ws1 @ core @ ws2) = core @ ws2"
    using assms(1) c by (simp add: core)
  from assms(3) have "rev core \<noteq> []" by simp
  then obtain e es where rc: "rev core = e # es" by (cases "rev core") auto
  have "e = last core" using rc assms(3) by (metis hd_rev list.sel(1) rev_rev_ident last_rev)
  with assms(5) have e: "\<not> isSpace e" by simp
  have "dropWhile isSpace (rev ws2 @ e # es) = dropWhile isSpace (e # es)"
    by (rule dropWhile_append2) (simp add: assms(2))
  with e have "dropWhile isSpace (rev (core @ ws2)) = rev core"
    by (simp add: rc)
  with d show ?thesis by (simp add: trim_def)
qed

text \<open>
  Claim C2, as the code has it. A block that the first pattern recognises is three
  backticks, a tag \<open>lang\<close> of word characters (possibly empty), a line feed, a text
  \<open>code\<close> in which no three backticks follow one another (not even together with the
  closing ones), and three backticks. When the text before such a block does not hold
  three backticks in a row either (not even together with the opening ones), the
  first pass of \<^const>\<open>parseMarkdown\<close> copies what is before it and replaces the block by
  the \<^verbatim>\<open>pre\<close> and \<^verbatim>\<open>code\<close> elements with the class \<^verbatim>\<open>language-\<close>\<open>lang\<close>, or
  \<^verbatim>\<open>language-typescript\<close> for the empty tag, around the escaped, trimmed text; the
  remaining passes then run over this result and over the rest of the input. Escaped
  text holds none of the characters \<^verbatim>\<open><\<close>, \<^verbatim>\<open>>\<close>, double quote and single quote, and
  the five characters are replaced by their entities. For the block that holds
  \<^verbatim>\<open><script>alert(1)</script>\<close> the output is the escaped form inside the two elements
  and does not contain the raw tag.
\<close>

theorem fenced_block_escaped:
  \<open>(\<not> includes' (A @ ''``'') ''```'' \<and> (\<forall>c \<in> set lang. isWordChar c) \<and>
    \<not> includes' (code @ ''``'') ''```'' \<longrightarrow>
      parseMarkdown (A @ ''```'' @ lang @ ''\<newline>'' @ code @ ''```'' @ B) =
        afterCodeBlocks
          (A @ ''<pre class="bg-gray-900 text-gray-100 p-4 rounded-lg overflow-x-auto my-4"><code class="language-''
             @ (if lang = [] then ''typescript'' else lang) @ ''">''
             @ escapeHtml (trim code) @ ''</code></pre>'' @ replaceGlobal matchCodeBlock None B)) \<and>
   (\<forall>c \<in> set (escapeHtml code).
      c \<noteq> CHR ''<'' \<and> c \<noteq> CHR ''>'' \<and> c \<noteq> CHR 0x22 \<and> c \<noteq> CHR 0x27) \<and>
   escapeHtml ''&<>"'' @ escapeHtml [CHR 0x27] = ''&amp;&lt;&gt;&quot;&#039;'' \<and>
   parseMarkdown ''```\<newline><script>alert(1)</script>\<newline>```'' =
     ''<pre class="bg-gray-900 text-gray-100 p-4 rounded-lg overflow-x-auto my-4"><code class="language-typescript">&lt;script&gt;alert(1)&lt;/script&gt;</code></pre>'' \<and>
   \<not> includes' (parseMarkdown ''```\<newline><script>alert(1)</script>\<newline>```'') ''<script>''\<close>
proof -
  have p1: \<open>\<not> includes' (A @ ''``'') ''```'' \<and> (\<forall>c \<in> set lang. isWordChar c) \<and>
    \<not> includes' (code @ ''``'') ''```'' \<longrightarrow>
      parseMarkdown (A @ ''```'' @ lang @ ''\<newline>'' @ code @ ''```'' @ B) =
        afterCodeBlocks
          (A @ ''<pre class="bg-gray-900 text-gray-100 p-4 rounded-lg overflow-x-auto my-4"><code class="language-''
             @ (if lang = [] then ''typescript'' else lang) @ ''">''
             @ escapeHtml (trim code) @ ''</code></pre>'' @ replaceGlobal matchCodeBlock None B)\<close>
  proof
    assume h: "\<not> includes' (A @ ''``'') ''```'' \<and> (\<forall>c \<in> set lang. isWordChar c) \<and>
    \<not> includes' (code @ ''``'') ''```''"
    have ne: "A @ ''```'' @ lang @ ''\<newline>'' @ code @ ''```'' @ B \<noteq> []" by simp
    from h codeBlocks_block [of A lang code B]
    show \<open>parseMarkdown (A @ ''```'' @ lang @ ''\<newline>'' @ code @ ''```'' @ B) =
        afterCodeBlocks
          (A @ ''<pre class="bg-gray-900 text-gray-100 p-4 rounded-lg overflow-x-auto my-4"><code class="language-''
             @ (if lang = [] then ''typescript'' else lang) @ ''">''
             @ escapeHtml (trim code) @ ''</code></pre>'' @ replaceGlobal matchCodeBlock None B)\<close>
      unfolding parseMarkdown_passes [OF ne] by simp
  qed
  have p2: "\<forall>c \<in> set (escapeHtml code).
      c \<noteq> CHR ''<'' \<and> c \<noteq> CHR ''>'' \<and> c \<noteq> CHR 0x22 \<and> c \<noteq> CHR 0x27"
    using escapeHtml_chars by blast
  have p3: \<open>escapeHtml ''&<>"'' @ escapeHtml [CHR 0x27] = ''&amp;&lt;&gt;&quot;&#039;''\<close>
    by (simp add: escapeHtml_def escapeChar_def)
  have p4: \<open>parseMarkdown ''```\<newline><script>alert(1)</script>\<newline>```'' =
     ''<pre class="bg-gray-900 text-gray-100 p-4 rounded-lg overflow-x-auto my-4"><code class="language-typescript">&lt;script&gt;alert(1)&lt;/script&gt;</code></pre>''\<close>
    by code_simp
  have p5: \<open>\<not> includes' (parseMarkdown ''```\<newline><script>alert(1)</script>\<newline>```'') ''<script>''\<close>
    by code_simp
  from p1 p2 p3 p4 p5 show ?thesis by (intro conjI)
qed

text \<open>
  A block with the tag \<^verbatim>\<open>js\<close> behind a paragraph with an inline span, its own text
  holding single backticks.
\<close>

theorem fenced_block_escaped_witness:
  \<open>parseMarkdown ''Use `a`:\<newline>\<newline>```js\<newline>let a = `<b>`;\<newline>```'' =
     afterCodeBlocks ''Use `a`:\<newline>\<newline><pre class="bg-gray-900 text-gray-100 p-4 rounded-lg overflow-x-auto my-4"><code class="language-js">let a = `&lt;b&gt;`;</code></pre>''\<close>
proof -
  have h: "\<not> includes' (''Use `a`:\<newline>\<newline>'' @ ''``'') ''```'' \<and> (\<forall>c \<in> set ''js''. isWordChar c) \<and>
      \<not> includes' (''let a = `<b>`;\<newline>'' @ ''``'') ''```''"
    by code_simp
  have e: "escapeHtml (trim ''let a = `<b>`;\<newline>'') = ''let a = `&lt;b&gt;`;''"
    by code_simp
  have n: "replaceGlobal matchCodeBlock None [] = []"
    by code_simp
  from fenced_block_escaped [where A = "''Use `a`:\<newline>\<newline>''" and lang = "''js''"
      and code = "''let a = `<b>`;\<newline>''" and B = "[]"] h e n
  show ?thesis by simp
qed

text \<open>
  The claim as stated, for every fenced block, fails: a tag with a character outside
  \<^verbatim>\<open>\w\<close>, such as \<^verbatim>\<open>c++\<close>, keeps the first pattern from matching, and the raw tag
  reaches the output.
\<close>

theorem fenced_block_counterexample:
  \<open>includes' (parseMarkdown ''```c++\<newline><script>alert(1)</script>\<newline>```'') ''<script>alert(1)</script>''\<close>
  by code_simp

text \<open>
  Claim C5. A non-empty text \<open>t\<close> between two single backticks, in an input without any
  other backtick, is put between \<^verbatim>\<open><code ...>\<close> and \<^verbatim>\<open></code>\<close> exactly as it stands:
  the code-block pass leaves the input alone, the inline-code pass wraps \<open>t\<close> without
  escaping it, and the remaining passes run over the result. So there is an input whose
  span holds \<^verbatim>\<open><\<close> and \<^verbatim>\<open>&\<close> and whose output holds them unescaped, while the same
  text in a fenced block comes out escaped.
\<close>

theorem inline_code_verbatim:
  \<open>(CHR ''`'' \<notin> set A \<and> CHR ''`'' \<notin> set t \<and> t \<noteq> [] \<and> CHR ''`'' \<notin> set B \<longrightarrow>
      parseMarkdown (A @ ''`'' @ t @ ''`'' @ B) =
        afterInlineCode
          (A @ ''<code class="px-2 py-1 bg-gray-100 dark:bg-gray-800 rounded text-sm">'' @ t @ ''</code>'' @ B)) \<and>
   parseMarkdown ''`a<b&c`'' =
     ''<code class="px-2 py-1 bg-gray-100 dark:bg-gray-800 rounded text-sm">a<b&c</code>'' \<and>
   parseMarkdown ''```\<newline>a<b&c\<newline>```'' =
     ''<pre class="bg-gray-900 text-gray-100 p-4 rounded-lg overflow-x-auto my-4"><code class="language-typescript">a&lt;b&amp;c</code></pre>''\<close>
proof -
  have p1: \<open>CHR ''`'' \<notin> set A \<and> CHR ''`'' \<notin> set t \<and> t \<noteq> [] \<and> CHR ''`'' \<notin> set B \<longrightarrow>
      parseMarkdown (A @ ''`'' @ t @ ''`'' @ B) =
        afterInlineCode
          (A @ ''<code class="px-2 py-1 bg-gray-100 dark:bg-gray-800 rounded text-sm">'' @ t @ ''</code>'' @ B)\<close>
  proof
    assume h: "CHR ''`'' \<notin> set A \<and> CHR ''`'' \<notin> set t \<and> t \<noteq> [] \<and> CHR ''`'' \<notin> set B"
    have ne: "A @ ''`'' @ t @ ''`'' @ B \<noteq> []" by simp
    from h have 1: "replaceGlobal matchCodeBlock None (A @ ''`'' @ t @ ''`'' @ B) = A @ ''`'' @ t @ ''`'' @ B"
      by (intro codeBlocks_single_backticks) auto
    from h have 2: \<open>replaceGlobal matchInlineCode None (A @ ''`'' @ t @ ''`'' @ B) =
        A @ ''<code class="px-2 py-1 bg-gray-100 dark:bg-gray-800 rounded text-sm">'' @ t @ ''</code>'' @ B\<close>
      by (intro inlineCode_span) auto
    show \<open>parseMarkdown (A @ ''`'' @ t @ ''`'' @ B) =
        afterInlineCode
          (A @ ''<code class="px-2 py-1 bg-gray-100 dark:bg-gray-800 rounded text-sm">'' @ t @ ''</code>'' @ B)\<close>
      unfolding parseMarkdown_passes [OF ne] afterCodeBlocks_def 1 2 ..
  qed
  have p2: \<open>parseMarkdown ''`a<b&c`'' =
     ''<code class="px-2 py-1 bg-gray-100 dark:bg-gray-800 rounded text-sm">a<b&c</code>''\<close>
    by code_simp
  have p3: \<open>parseMarkdown ''```\<newline>a<b&c\<newline>```'' =
     ''<pre class="bg-gray-900 text-gray-100 p-4 rounded-lg overflow-x-auto my-4"><code class="language-typescript">a&lt;b&amp;c</code></pre>''\<close>
    by code_simp
  from p1 p2 p3 show ?thesis by (intro conjI)
qed

text \<open>A span with \<^verbatim>\<open><\<close> inside a line of text.\<close>

theorem inline_code_verbatim_witness:
  \<open>parseMarkdown ''x `a<b` y'' =
     afterInlineCode ''x <code class="px-2 py-1 bg-gray-100 dark:bg-gray-800 rounded text-sm">a<b</code> y''\<close>
proof -
  have h: "CHR ''`'' \<notin> set ''x '' \<and> CHR ''`'' \<notin> set ''a<b'' \<and> ''a<b'' \<noteq> [] \<and> CHR ''`'' \<notin> set '' y''"
    by simp
  from inline_code_verbatim [where A = "''x ''" and t = "''a<b''" and B = "'' y''"] h
  show ?thesis by simp
qed

text \<open>
  Claim C6. For the input \<^verbatim>\<open>## Setup\<close> the result is one \<^verbatim>\<open>h2\<close> element whose text is
  \<^verbatim>\<open>Setup\<close> and whose \<^verbatim>\<open>id\<close> attribute is the header text as it stands, \<^verbatim>\<open>Setup\<close>.
  The header passes run in the order \<^verbatim>\<open>###\<close>, \<^verbatim>\<open>##\<close>, \<^verbatim>\<open>#\<close>, as
  \<^const>\<open>parseMarkdown\<close> lists them: on this input the first leaves the text as it is, the
  second produces the element and the third leaves the element as it is. The inputs
  \<^verbatim>\<open>### Setup\<close> and \<^verbatim>\<open># Setup\<close> give \<^verbatim>\<open>h3\<close>, with the same \<^verbatim>\<open>id\<close>, and \<^verbatim>\<open>h1\<close>.
\<close>

theorem header_setup:
  \<open>parseMarkdown ''## Setup'' = ''<h2 id="Setup" class="text-3xl font-bold mt-12 mb-6">Setup</h2>'' \<and>
   replaceGlobal (matchLine ''### '' h3) None ''## Setup'' = ''## Setup'' \<and>
   replaceGlobal (matchLine ''## '' h2) None ''## Setup'' = h2 ''Setup'' \<and>
   replaceGlobal (matchLine ''# '' h1) None (h2 ''Setup'') = h2 ''Setup'' \<and>
   parseMarkdown ''### Setup'' = ''<h3 id="Setup" class="text-2xl font-bold mt-8 mb-4">Setup</h3>'' \<and>
   parseMarkdown ''# Setup'' = ''<h1 class="text-4xl font-bold mt-8 mb-6">Setup</h1>''\<close>
  by code_simp

text \<open>
  Claim C7. For the three lines \<^verbatim>\<open>- a\<close>, \<^verbatim>\<open>- b\<close>, \<^verbatim>\<open>- c\<close> the result is a single
  \<^verbatim>\<open>ul\<close> element around three \<^verbatim>\<open>li\<close> elements with the texts \<^verbatim>\<open>a\<close>, \<^verbatim>\<open>b\<close>, \<^verbatim>\<open>c\<close>, in
  this order: the output is the text below, in which \<^verbatim>\<open><ul\<close> and \<^verbatim>\<open></ul>\<close> start once
  each and \<^verbatim>\<open><li\<close> starts three times.
\<close>

theorem list_abc:
  \<open>parseMarkdown ''- a\<newline>- b\<newline>- c'' =
     ''<ul class="list-disc list-inside space-y-2 my-4"><li class="ml-4">a</li>\<newline><li class="ml-4">b</li>\<newline><li class="ml-4">c</li></ul>'' \<and>
   occurrences (parseMarkdown ''- a\<newline>- b\<newline>- c'') ''<ul'' = 1 \<and>
   occurrences (parseMarkdown ''- a\<newline>- b\<newline>- c'') ''</ul>'' = 1 \<and>
   occurrences (parseMarkdown ''- a\<newline>- b\<newline>- c'') ''<li'' = 3 \<and>
   occurrences (parseMarkdown ''- a\<newline>- b\<newline>- c'') ''</li>'' = 3\<close>
  by code_simp

text \<open>
  Claim C10. Whenever the code-block pattern matches, and so whenever the pass emits its
  \<^verbatim>\<open>pre\<close> and \<^verbatim>\<open>code\<close> elements, the matched text is a fenced block with a tag
  \<open>lang\<close> and an enclosed text \<open>code\<close>, and the text inside the emitted element is the
  escaped form of \<^term>\<open>trim code\<close>, not of \<open>code\<close>: the enclosed text is white
  space, then \<^term>\<open>trim code\<close>, then white space, and \<^term>\<open>trim code\<close> neither starts
  nor ends with white space. The other way round, for a recognised block whose enclosed
  text is white space \<open>sp1\<close>, a text \<open>core\<close> that neither starts nor ends with white
  space, and white space \<open>sp2\<close>, with no three backticks in a row before the block,
  \<^const>\<open>parseMarkdown\<close> is the later passes applied to the text in which the emitted
  element holds the escaped form of \<open>core\<close> alone. For a block whose text has blank
  lines and blanks around \<^verbatim>\<open>x = 1;\<close> the element holds just \<^verbatim>\<open>x = 1;\<close>.
\<close>

theorem code_block_trimmed:
  \<open>(matchCodeBlock prev s = Some (r, rest) \<longrightarrow>
      (\<exists>lang code ws1 ws2.
         s = ''```'' @ lang @ ''\<newline>'' @ code @ ''```'' @ rest \<and>
         (\<forall>c \<in> set lang. isWordChar c) \<and>
         r = ''<pre class="bg-gray-900 text-gray-100 p-4 rounded-lg overflow-x-auto my-4"><code class="language-''
               @ (if lang = [] then ''typescript'' else lang) @ ''">''
               @ escapeHtml (trim code) @ ''</code></pre>'' \<and>
         code = ws1 @ trim code @ ws2 \<and>
         (\<forall>c \<in> set ws1. isSpace c) \<and> (\<forall>c \<in> set ws2. isSpace c) \<and>
         (trim code \<noteq> [] \<longrightarrow> \<not> isSpace (hd (trim code)) \<and> \<not> isSpace (last (trim code))))) \<and>
   (\<not> includes' (A @ ''``'') ''```'' \<and> (\<forall>c \<in> set tag. isWordChar c) \<and>
    (\<forall>c \<in> set sp1. isSpace c) \<and> (\<forall>c \<in> set sp2. isSpace c) \<and>
    core \<noteq> [] \<and> \<not> isSpace (hd core) \<and> \<not> isSpace (last core) \<and>
    \<not> includes' (sp1 @ core @ sp2 @ ''``'') ''```'' \<longrightarrow>
      parseMarkdown (A @ ''```'' @ tag @ ''\<newline>'' @ sp1 @ core @ sp2 @ ''```'' @ B) =
        afterCodeBlocks
          (A @ ''<pre class="bg-gray-900 text-gray-100 p-4 rounded-lg overflow-x-auto my-4"><code class="language-''
             @ (if tag = [] then ''typescript'' else tag) @ ''">''
             @ escapeHtml core @ ''</code></pre>'' @ replaceGlobal matchCodeBlock None B)) \<and>
   parseMarkdown ''```js\<newline>\<newline>  x = 1;  \<newline>\<newline>```'' =
     ''<pre class="bg-gray-900 text-gray-100 p-4 rounded-lg overflow-x-auto my-4"><code class="language-js">x = 1;</code></pre>''\<close>
proof -
  have p1: \<open>matchCodeBlock prev s = Some (r, rest) \<longrightarrow>
      (\<exists>lang code ws1 ws2.
         s = ''```'' @ lang @ ''\<newline>'' @ code @ ''```'' @ rest \<and>
         (\<forall>c \<in> set lang. isWordChar c) \<and>
         r = ''<pre class="bg-gray-900 text-gray-100 p-4 rounded-lg overflow-x-auto my-4"><code class="language-''
               @ (if lang = [] then ''typescript'' else lang) @ ''">''
               @ escapeHtml (trim code) @ ''</code></pre>'' \<and>
         code = ws1 @ trim code @ ws2 \<and>
         (\<forall>c \<in> set ws1. isSpace c) \<and> (\<forall>c \<in> set ws2. isSpace c) \<and>
         (trim code \<noteq> [] \<longrightarrow> \<not> isSpace (hd (trim code)) \<and> \<not> isSpace (last (trim code))))\<close>
  proof
    assume m: "matchCodeBlock prev s = Some (r, rest)"
    from m obtain s1 where l1: "literal ''```'' s = Some s1"
      by (auto simp: matchCodeBlock_def split: option.splits)
    let ?lang = "takeWhile isWordChar s1"
    from m l1 obtain s2 where l2: "literal ''\<newline>'' (dropWhile isWordChar s1) = Some s2"
      by (auto simp: matchCodeBlock_def Let_def split: option.splits)
    from m l1 l2 obtain code where l3: "lazyUntil ''```'' s2 = Some (code, rest)"
      and r: \<open>r = ''<pre class="bg-gray-900 text-gray-100 p-4 rounded-lg overflow-x-auto my-4"><code class="language-''
               @ (if ?lang = [] then ''typescript'' else ?lang) @ ''">''
               @ escapeHtml (trim code) @ ''</code></pre>''\<close>
      by (auto simp: matchCodeBlock_def Let_def split: option.splits)
    have "s1 = ?lang @ dropWhile isWordChar s1" by simp
    with literal_SomeD [OF l1] literal_SomeD [OF l2] lazyUntil_SomeD [OF l3]
    have s: "s = ''```'' @ ?lang @ ''\<newline>'' @ code @ ''```'' @ rest" by simp
    have w: "\<forall>c \<in> set ?lang. isWordChar c" by (auto dest: set_takeWhileD)
    let ?ws1 = "takeWhile isSpace code"
    let ?ws2 = "rev (takeWhile isSpace (rev (dropWhile isSpace code)))"
    have d: "code = ?ws1 @ trim code @ ?ws2" by (rule trim_decomposition)
    have a1: "\<forall>c \<in> set ?ws1. isSpace c" by (auto dest: set_takeWhileD)
    have a2: "\<forall>c \<in> set ?ws2. isSpace c" by (auto dest: set_takeWhileD)
    have e: "trim code \<noteq> [] \<longrightarrow> \<not> isSpace (hd (trim code)) \<and> \<not> isSpace (last (trim code))"
      using trim_hd trim_last by blast
    from s w r d a1 a2 e show \<open>\<exists>lang code ws1 ws2.
         s = ''```'' @ lang @ ''\<newline>'' @ code @ ''```'' @ rest \<and>
         (\<forall>c \<in> set lang. isWordChar c) \<and>
         r = ''<pre class="bg-gray-900 text-gray-100 p-4 rounded-lg overflow-x-auto my-4"><code class="language-''
               @ (if lang = [] then ''typescript'' else lang) @ ''">''
               @ escapeHtml (trim code) @ ''</code></pre>'' \<and>
         code = ws1 @ trim code @ ws2 \<and>
         (\<forall>c \<in> set ws1. isSpace c) \<and> (\<forall>c \<in> set ws2. isSpace c) \<and>
         (trim code \<noteq> [] \<longrightarrow> \<not> isSpace (hd (trim code)) \<and> \<not> isSpace (last (trim code)))\<close>
      by blast
  qed
  have p2: \<open>\<not> includes' (A @ ''``'') ''```'' \<and> (\<forall>c \<in> set tag. isWordChar c) \<and>
    (\<forall>c \<in> set sp1. isSpace c) \<and> (\<forall>c \<in> set sp2. isSpace c) \<and>
    core \<noteq> [] \<and> \<not> isSpace (hd core) \<and> \<not> isSpace (last core) \<and>
    \<not> includes' (sp1 @ core @ sp2 @ ''``'') ''```'' \<longrightarrow>
      parseMarkdown (A @ ''```'' @ tag @ ''\<newline>'' @ sp1 @ core @ sp2 @ ''```'' @ B) =
        afterCodeBlocks
          (A @ ''<pre class="bg-gray-900 text-gray-100 p-4 rounded-lg overflow-x-auto my-4"><code class="language-''
             @ (if tag = [] then ''typescript'' else tag) @ ''">''
             @ escapeHtml core @ ''</code></pre>'' @ replaceGlobal matchCodeBlock None B)\<close>
  proof
    assume h: "\<not> includes' (A @ ''``'') ''```'' \<and> (\<forall>c \<in> set tag. isWordChar c) \<and>
       (\<forall>c \<in> set sp1. isSpace c) \<and> (\<forall>c \<in> set sp2. isSpace c) \<and>
       core \<noteq> [] \<and> \<not> isSpace (hd core) \<and> \<not> isSpace (last core) \<and>
       \<not> includes' (sp1 @ core @ sp2 @ ''``'') ''```''"
    have ne: "A @ ''```'' @ tag @ ''\<newline>'' @ sp1 @ core @ sp2 @ ''```'' @ B \<noteq> []" by simp
    from h have tr: "trim (sp1 @ core @ sp2) = core" by (intro trim_sandwich) auto
    from h have nf: "\<not> includes' ((sp1 @ core @ sp2) @ ''``'') ''```''" by simp
    from h have a: "\<not> includes' (A @ ''``'') ''```''" and w: "\<forall>c \<in> set tag. isWordChar c" by auto
    from codeBlocks_block [OF a w nf, of B] tr
    show \<open>parseMarkdown (A @ ''```'' @ tag @ ''\<newline>'' @ sp1 @ core @ sp2 @ ''```'' @ B) =
        afterCodeBlocks
          (A @ ''<pre class="bg-gray-900 text-gray-100 p-4 rounded-lg overflow-x-auto my-4"><code class="language-''
             @ (if tag = [] then ''typescript'' else tag) @ ''">''
             @ escapeHtml core @ ''</code></pre>'' @ replaceGlobal matchCodeBlock None B)\<close>
      unfolding parseMarkdown_passes [OF ne] by simp
  qed
  have p3: \<open>parseMarkdown ''```js\<newline>\<newline>  x = 1;  \<newline>\<newline>```'' =
     ''<pre class="bg-gray-900 text-gray-100 p-4 rounded-lg overflow-x-auto my-4"><code class="language-js">x = 1;</code></pre>''\<close>
    by code_simp
  from p1 p2 p3 show ?thesis by (intro conjI)
qed

text \<open>
  The pattern on a block with blank lines and indentation around its text, and the whole
  function on the same block behind a line of text.
\<close>

theorem code_block_trimmed_witness:
  \<open>(matchCodeBlock None ''```js\<newline>\<newline>  x = 1;  \<newline>\<newline>```tail'' =
     Some (''<pre class="bg-gray-900 text-gray-100 p-4 rounded-lg overflow-x-auto my-4"><code class="language-js">x = 1;</code></pre>'', ''tail'') \<and>
   (\<exists>lang code ws1 ws2.
      ''```js\<newline>\<newline>  x = 1;  \<newline>\<newline>```tail'' = ''```'' @ lang @ ''\<newline>'' @ code @ ''```'' @ ''tail'' \<and>
      (\<forall>c \<in> set lang. isWordChar c) \<and>
      ''<pre class="bg-gray-900 text-gray-100 p-4 rounded-lg overflow-x-auto my-4"><code class="language-js">x = 1;</code></pre>'' =
        ''<pre class="bg-gray-900 text-gray-100 p-4 rounded-lg overflow-x-auto my-4"><code class="language-''
          @ (if lang = [] then ''typescript'' else lang) @ ''">'' @ escapeHtml (trim code) @ ''</code></pre>'' \<and>
      code = ws1 @ trim code @ ws2 \<and>
      (\<forall>c \<in> set ws1. isSpace c) \<and> (\<forall>c \<in> set ws2. isSpace c) \<and>
      (trim code \<noteq> [] \<longrightarrow> \<not> isSpace (hd (trim code)) \<and> \<not> isSpace (last (trim code))))) \<and>
   parseMarkdown ''See:\<newline>```js\<newline>\<newline>  x = 1;  \<newline>\<newline>```'' =
     afterCodeBlocks ''See:\<newline><pre class="bg-gray-900 text-gray-100 p-4 rounded-lg overflow-x-auto my-4"><code class="language-js">x = 1;</code></pre>''\<close>
proof -
  have m: \<open>matchCodeBlock None ''```js\<newline>\<newline>  x = 1;  \<newline>\<newline>```tail'' =
     Some (''<pre class="bg-gray-900 text-gray-100 p-4 rounded-lg overflow-x-auto my-4"><code class="language-js">x = 1;</code></pre>'', ''tail'')\<close>
    by code_simp
  note t = code_block_trimmed [where prev = None
      and s = "''```js\<newline>\<newline>  x = 1;  \<newline>\<newline>```tail''" and rest = "''tail''"
      and r = \<open>''<pre class="bg-gray-900 text-gray-100 p-4 rounded-lg overflow-x-auto my-4"><code class="language-js">x = 1;</code></pre>''\<close>
      and A = "''See:\<newline>''" and tag = "''js''" and ?sp1.0 = "''\<newline>  ''" and core = "''x = 1;''"
      and ?sp2.0 = "''  \<newline>\<newline>''" and B = "[]"]
  have h: "\<not> includes' (''See:\<newline>'' @ ''``'') ''```'' \<and> (\<forall>c \<in> set ''js''. isWordChar c) \<and>
      (\<forall>c \<in> set ''\<newline>  ''. isSpace c) \<and> (\<forall>c \<in> set ''  \<newline>\<newline>''. isSpace c) \<and>
      ''x = 1;'' \<noteq> [] \<and> \<not> isSpace (hd ''x = 1;'') \<and> \<not> isSpace (last ''x = 1;'') \<and>
      \<not> includes' (''\<newline>  '' @ ''x = 1;'' @ ''  \<newline>\<newline>'' @ ''``'') ''```''"
    by code_simp
  have e: "escapeHtml ''x = 1;'' = ''x = 1;''" by code_simp
  have n: "replaceGlobal matchCodeBlock None [] = []" by code_simp
  from mp [OF conjunct1 [OF conjunct2 [OF t]] h] e n
  have b: \<open>parseMarkdown ''See:\<newline>```js\<newline>\<newline>  x = 1;  \<newline>\<newline>```'' =
     afterCodeBlocks ''See:\<newline><pre class="bg-gray-900 text-gray-100 p-4 rounded-lg overflow-x-auto my-4"><code class="language-js">x = 1;</code></pre>''\<close>
    by simp
  from conjI [OF conjI [OF m mp [OF conjunct1 [OF t] m]] b] show ?thesis .
qed

text \<open>
  The later passes run over an emitted code element as over any other text. A line of the
  enclosed text that starts with \<^verbatim>\<open># \<close> is taken for a header, and the \<^verbatim>\<open>h1\<close> element
  that replaces it runs across the end of the \<^verbatim>\<open>code\<close> and \<^verbatim>\<open>pre\<close> elements.
\<close>

lemma code_block_header_line:
  \<open>parseMarkdown ''```\<newline>a\<newline># b\<newline>```'' =
     ''<pre class="bg-gray-900 text-gray-100 p-4 rounded-lg overflow-x-auto my-4"><code class="language-typescript">a\<newline><h1 class="text-4xl font-bold mt-8 mb-6">b</code></pre></h1>''\<close>
  by code_simp

section \<open>Properties of the content loader\<close>

text \<open>
  Claim C3. The effect is run once, on the initial state, with a record \<open>b\<close>. A field
  counts as set when the code's own test takes it for true, that is, when it holds a
  non-empty string.
  \<^item> If \<^verbatim>\<open>contentFile\<close> is the non-empty name \<open>f\<close>, exactly one URL is handed to
    \<^verbatim>\<open>fetch\<close>, namely \<^verbatim>\<open>/api/content/\<close> followed by \<open>f\<close>; when the chain succeeds
    with a body whose \<^verbatim>\<open>content\<close> field is \<open>c\<close>, the state holds \<open>c\<close>, loading is
    over and nothing was logged.
  \<^item> If \<^verbatim>\<open>contentFile\<close> is not set and \<^verbatim>\<open>content\<close> is the non-empty text \<open>t\<close>, the
    state holds \<open>t\<close>, nothing was fetched and the page shows \<open>t\<close> rendered.
  \<^item> If neither is set, the state holds no content, nothing was fetched or logged,
    and the page shows the placeholder.
\<close>

theorem loader_cases:
  "(contentFile b = Some f \<and> f \<noteq> [] \<longrightarrow>
      fetched (useEffect fetch (Some b) initialState) = [''/api/content/'' @ f] \<and>
      (fetch (''/api/content/'' @ f) = JsonData c \<longrightarrow>
         content' (useEffect fetch (Some b) initialState) = c \<and>
         \<not> loading (useEffect fetch (Some b) initialState) \<and>
         logged (useEffect fetch (Some b) initialState) = [])) \<and>
   (\<not> truthy (contentFile b) \<and> content b = Some t \<and> t \<noteq> [] \<longrightarrow>
      content' (useEffect fetch (Some b) initialState) = Some t \<and>
      \<not> loading (useEffect fetch (Some b) initialState) \<and>
      fetched (useEffect fetch (Some b) initialState) = [] \<and>
      render (Some b) (useEffect fetch (Some b) initialState) = Html (parseMarkdown t)) \<and>
   (\<not> truthy (contentFile b) \<and> \<not> truthy (content b) \<longrightarrow>
      content' (useEffect fetch (Some b) initialState) = None \<and>
      \<not> loading (useEffect fetch (Some b) initialState) \<and>
      fetched (useEffect fetch (Some b) initialState) = [] \<and>
      logged (useEffect fetch (Some b) initialState) = [] \<and>
      render (Some b) (useEffect fetch (Some b) initialState) = ComingSoon)"
  by (auto simp: useEffect_def initialState_def truthy_def render_def catchError_def Let_def
           split: option.splits fetch_result.splits)

text \<open>
  The three cases on sample records: \<^verbatim>\<open>contentFile: "post.md"\<close> with an endpoint that
  answers \<^verbatim>\<open>{ content: "# Title" }\<close>; inline content \<^verbatim>\<open>**bold**\<close>; neither field.
\<close>

theorem loader_cases_witness:
  "fetched (useEffect (exampleFetch (JsonData (Some ''# Title'')))
      (Some (exampleBlog ''a'' None (Some ''post.md''))) initialState) = [''/api/content/post.md''] \<and>
   content' (useEffect (exampleFetch (JsonData (Some ''# Title'')))
      (Some (exampleBlog ''a'' None (Some ''post.md''))) initialState) = Some ''# Title'' \<and>
   content' (useEffect (exampleFetch JsonNull)
      (Some (exampleBlog ''a'' (Some ''**bold**'') None)) initialState) = Some ''**bold**'' \<and>
   fetched (useEffect (exampleFetch JsonNull)
      (Some (exampleBlog ''a'' (Some ''**bold**'') None)) initialState) = [] \<and>
   fetched (useEffect (exampleFetch JsonNull)
      (Some (exampleBlog ''a'' None None)) initialState) = [] \<and>
   render (Some (exampleBlog ''a'' None None))
      (useEffect (exampleFetch JsonNull) (Some (exampleBlog ''a'' None None)) initialState)
     = ComingSoon"
proof -
  have f1: "contentFile (exampleBlog ''a'' None (Some ''post.md'')) = Some ''post.md'' \<and> ''post.md'' \<noteq> []"
    by (simp add: exampleBlog_def)
  have r1: "exampleFetch (JsonData (Some ''# Title'')) (''/api/content/'' @ ''post.md'')
              = JsonData (Some ''# Title'')"
    by (simp add: exampleFetch_def)
  have f2: "\<not> truthy (contentFile (exampleBlog ''a'' (Some ''**bold**'') None)) \<and>
            content (exampleBlog ''a'' (Some ''**bold**'') None) = Some ''**bold**'' \<and> ''**bold**'' \<noteq> []"
    by (simp add: exampleBlog_def truthy_def)
  have f3: "\<not> truthy (contentFile (exampleBlog ''a'' None None)) \<and>
            \<not> truthy (content (exampleBlog ''a'' None None))"
    by (simp add: exampleBlog_def truthy_def)
  from loader_cases [where b = "exampleBlog ''a'' None (Some ''post.md'')" and f = "''post.md''"
      and fetch = "exampleFetch (JsonData (Some ''# Title''))" and c = "Some ''# Title''"] f1 r1
  have a: "fetched (useEffect (exampleFetch (JsonData (Some ''# Title'')))
      (Some (exampleBlog ''a'' None (Some ''post.md''))) initialState) = [''/api/content/post.md''] \<and>
   content' (useEffect (exampleFetch (JsonData (Some ''# Title'')))
      (Some (exampleBlog ''a'' None (Some ''post.md''))) initialState) = Some ''# Title''"
    by simp
  from loader_cases [where b = "exampleBlog ''a'' (Some ''**bold**'') None" and t = "''**bold**''"
      and fetch = "exampleFetch JsonNull"] f2
  have b: "content' (useEffect (exampleFetch JsonNull)
      (Some (exampleBlog ''a'' (Some ''**bold**'') None)) initialState) = Some ''**bold**'' \<and>
   fetched (useEffect (exampleFetch JsonNull)
      (Some (exampleBlog ''a'' (Some ''**bold**'') None)) initialState) = []"
    by blast
  from loader_cases [where b = "exampleBlog ''a'' None None" and fetch = "exampleFetch JsonNull"] f3
  have c: "fetched (useEffect (exampleFetch JsonNull)
      (Some (exampleBlog ''a'' None None)) initialState) = [] \<and>
   render (Some (exampleBlog ''a'' None None))
      (useEffect (exampleFetch JsonNull) (Some (exampleBlog ''a'' None None)) initialState)
     = ComingSoon"
    by blast
  from a b c show ?thesis by blast
qed

text \<open>
  Claim C8, as the code has it. The record names a content file \<open>f\<close>. When the chain
  rejects, that is, when \<^verbatim>\<open>fetch\<close> rejects or \<^verbatim>\<open>res.json()\<close> rejects, with the error
  \<open>e\<close>, then, from the initial state, the error is handed to \<^verbatim>\<open>console.error\<close> once;
  one URL was fetched and no second one (there is no retry); the state holds no content
  and loading is over, which are the very values the effect leaves for the same record
  stripped of both body fields; and the page shows the placeholder, a view that carries
  no error. When instead the handler cannot read the file and the chain settles with its
  not-found response, the state, the single fetch and the placeholder are the same, but
  nothing is handed to \<^verbatim>\<open>console.error\<close>: there is no test of the status, and the
  \<^verbatim>\<open>catch\<close> handler is not entered.
\<close>

theorem fetch_failure_absent:
  "(contentFile b = Some f \<and> f \<noteq> [] \<and>
    (fetch (''/api/content/'' @ f) = FetchRejected e \<or> fetch (''/api/content/'' @ f) = JsonRejected e) \<longrightarrow>
      logged (useEffect fetch (Some b) initialState) = [(''Error loading content:'', e)] \<and>
      fetched (useEffect fetch (Some b) initialState) = [''/api/content/'' @ f] \<and>
      content' (useEffect fetch (Some b) initialState) = None \<and>
      \<not> loading (useEffect fetch (Some b) initialState) \<and>
      content' (useEffect fetch (Some b) initialState)
        = content' (useEffect fetch (Some (b\<lparr>content := None, contentFile := None\<rparr>)) initialState) \<and>
      loading (useEffect fetch (Some b) initialState)
        = loading (useEffect fetch (Some (b\<lparr>content := None, contentFile := None\<rparr>)) initialState) \<and>
      render (Some b) (useEffect fetch (Some b) initialState) = ComingSoon) \<and>
   (contentFile b = Some f \<and> f \<noteq> [] \<and>
    readFile fs (pathJoin cwd [''app'', ''data'', ''content'', f]) = None \<and>
    fetch (''/api/content/'' @ f) = resJson (GET cwd fs f) \<longrightarrow>
      logged (useEffect fetch (Some b) initialState) = [] \<and>
      fetched (useEffect fetch (Some b) initialState) = [''/api/content/'' @ f] \<and>
      content' (useEffect fetch (Some b) initialState) = None \<and>
      \<not> loading (useEffect fetch (Some b) initialState) \<and>
      content' (useEffect fetch (Some b) initialState)
        = content' (useEffect fetch (Some (b\<lparr>content := None, contentFile := None\<rparr>)) initialState) \<and>
      loading (useEffect fetch (Some b) initialState)
        = loading (useEffect fetch (Some (b\<lparr>content := None, contentFile := None\<rparr>)) initialState) \<and>
      render (Some b) (useEffect fetch (Some b) initialState) = ComingSoon)"
  by (auto simp: useEffect_def initialState_def truthy_def render_def catchError_def Let_def
        GET_def resJson_def)

text \<open>
  A rejected \<^verbatim>\<open>fetch\<close> for \<^verbatim>\<open>post.md\<close>, and the not-found response for \<^verbatim>\<open>post.md\<close>
  on the file system without files.
\<close>

theorem fetch_failure_absent_witness:
  "logged (useEffect (exampleFetch (FetchRejected ''Failed to fetch''))
      (Some (exampleBlog ''a'' None (Some ''post.md''))) initialState)
     = [(''Error loading content:'', ''Failed to fetch'')] \<and>
   fetched (useEffect (exampleFetch (FetchRejected ''Failed to fetch''))
      (Some (exampleBlog ''a'' None (Some ''post.md''))) initialState)
     = [''/api/content/'' @ ''post.md''] \<and>
   render (Some (exampleBlog ''a'' None (Some ''post.md'')))
      (useEffect (exampleFetch (FetchRejected ''Failed to fetch''))
         (Some (exampleBlog ''a'' None (Some ''post.md''))) initialState) = ComingSoon \<and>
   fetched (useEffect (exampleFetch (resJson (GET [''srv''] emptyFs ''post.md'')))
      (Some (exampleBlog ''a'' None (Some ''post.md''))) initialState)
     = [''/api/content/'' @ ''post.md''] \<and>
   render (Some (exampleBlog ''a'' None (Some ''post.md'')))
      (useEffect (exampleFetch (resJson (GET [''srv''] emptyFs ''post.md'')))
         (Some (exampleBlog ''a'' None (Some ''post.md''))) initialState) = ComingSoon"
proof -
  have h1: "contentFile (exampleBlog ''a'' None (Some ''post.md'')) = Some ''post.md'' \<and> ''post.md'' \<noteq> [] \<and>
    (exampleFetch (FetchRejected ''Failed to fetch'') (''/api/content/'' @ ''post.md'')
        = FetchRejected ''Failed to fetch'' \<or>
     exampleFetch (FetchRejected ''Failed to fetch'') (''/api/content/'' @ ''post.md'')
        = JsonRejected ''Failed to fetch'')"
    by (simp add: exampleBlog_def exampleFetch_def)
  have h2: "contentFile (exampleBlog ''a'' None (Some ''post.md'')) = Some ''post.md'' \<and> ''post.md'' \<noteq> [] \<and>
    readFile emptyFs (pathJoin [''srv''] [''app'', ''data'', ''content'', ''post.md'']) = None \<and>
    exampleFetch (resJson (GET [''srv''] emptyFs ''post.md'')) (''/api/content/'' @ ''post.md'')
      = resJson (GET [''srv''] emptyFs ''post.md'')"
    by (simp add: exampleBlog_def exampleFetch_def readFile_def emptyFs_def)
  note t1 = fetch_failure_absent [where b = "exampleBlog ''a'' None (Some ''post.md'')" and f = "''post.md''"
      and fetch = "exampleFetch (FetchRejected ''Failed to fetch'')" and e = "''Failed to fetch''"]
  note t2 = fetch_failure_absent [where b = "exampleBlog ''a'' None (Some ''post.md'')" and f = "''post.md''"
      and fetch = "exampleFetch (resJson (GET [''srv''] emptyFs ''post.md''))"
      and fs = emptyFs and cwd = "[''srv'']"]
  note a = mp [OF conjunct1 [OF t1] h1]
  note b = mp [OF conjunct2 [OF t2] h2]
  from a b show ?thesis by simp
qed

text \<open>
  The claim as stated fails on the not-found failure: the handler answers 404 for
  \<^verbatim>\<open>post.md\<close>, the chain settles with that response, and nothing is logged.
\<close>

theorem fetch_failure_counterexample:
  "status (GET [''srv''] emptyFs ''post.md'') = 404 \<and>
   logged (useEffect (exampleFetch (resJson (GET [''srv''] emptyFs ''post.md'')))
      (Some (exampleBlog ''a'' None (Some ''post.md''))) initialState) = []"
  by (simp add: GET_def pathJoin_def readFile_def emptyFs_def resJson_def exampleFetch_def
        exampleBlog_def useEffect_def truthy_def initialState_def Let_def)

text \<open>
  Claim C9. The record names the content file \<open>f\<close>, the handler cannot read it, and
  \<^verbatim>\<open>fetch\<close> settles with the handler's response for \<open>f\<close>. Then the response has status
  404 and a body without a \<^verbatim>\<open>content\<close> field, and the chain takes its success path with
  \<^verbatim>\<open>data.content\<close> undefined: whatever the state \<open>st\<close> before, the state after is
  \<open>st\<close> with the one URL added to those fetched, the content set to nothing and loading
  over. So nothing is added to what was handed to \<^verbatim>\<open>console.error\<close>, content held
  before is overwritten (the \<^verbatim>\<open>catch\<close> handler would have kept it), and the page shows
  the placeholder.
\<close>

theorem not_found_success_path:
  "contentFile b = Some f \<and> f \<noteq> [] \<and>
   readFile fs (pathJoin cwd [''app'', ''data'', ''content'', f]) = None \<and>
   fetch (''/api/content/'' @ f) = resJson (GET cwd fs f) \<longrightarrow>
     status (GET cwd fs f) = 404 \<and>
     contentField (GET cwd fs f) = None \<and>
     fetch (''/api/content/'' @ f) = JsonData None \<and>
     useEffect fetch (Some b) st
       = st\<lparr>content' := None, loading := False, fetched := fetched st @ [''/api/content/'' @ f]\<rparr> \<and>
     fetched (useEffect fetch (Some b) st) = fetched st @ [''/api/content/'' @ f] \<and>
     logged (useEffect fetch (Some b) st) = logged st \<and>
     content' (useEffect fetch (Some b) st) = None \<and>
     \<not> loading (useEffect fetch (Some b) st) \<and>
     render (Some b) (useEffect fetch (Some b) st) = ComingSoon"
proof
  assume h: "contentFile b = Some f \<and> f \<noteq> [] \<and>
   readFile fs (pathJoin cwd [''app'', ''data'', ''content'', f]) = None \<and>
   fetch (''/api/content/'' @ f) = resJson (GET cwd fs f)"
  from h have g: "GET cwd fs f = \<lparr>status = 404, contentField = None, errorField = Some ''Content not found''\<rparr>"
    by (simp add: GET_def)
  with h have fe: "fetch (''/api/content/'' @ f) = JsonData None"
    by (simp add: resJson_def)
  from h fe have u: "useEffect fetch (Some b) st
       = st\<lparr>content' := None, loading := False, fetched := fetched st @ [''/api/content/'' @ f]\<rparr>"
    by (simp add: useEffect_def truthy_def Let_def)
  from g fe u show "status (GET cwd fs f) = 404 \<and>
     contentField (GET cwd fs f) = None \<and>
     fetch (''/api/content/'' @ f) = JsonData None \<and>
     useEffect fetch (Some b) st
       = st\<lparr>content' := None, loading := False, fetched := fetched st @ [''/api/content/'' @ f]\<rparr> \<and>
     fetched (useEffect fetch (Some b) st) = fetched st @ [''/api/content/'' @ f] \<and>
     logged (useEffect fetch (Some b) st) = logged st \<and>
     content' (useEffect fetch (Some b) st) = None \<and>
     \<not> loading (useEffect fetch (Some b) st) \<and>
     render (Some b) (useEffect fetch (Some b) st) = ComingSoon"
    by (simp add: render_def)
qed

text \<open>
  The not-found response for \<^verbatim>\<open>post.md\<close> on the file system without files, from the
  initial state and from a state that already holds content.
\<close>

theorem not_found_success_path_witness:
  "status (GET [''srv''] emptyFs ''post.md'') = 404 \<and>
   fetched (useEffect (exampleFetch (resJson (GET [''srv''] emptyFs ''post.md'')))
      (Some (exampleBlog ''a'' None (Some ''post.md''))) initialState) = [''/api/content/post.md''] \<and>
   logged (useEffect (exampleFetch (resJson (GET [''srv''] emptyFs ''post.md'')))
      (Some (exampleBlog ''a'' None (Some ''post.md''))) initialState) = [] \<and>
   render (Some (exampleBlog ''a'' None (Some ''post.md'')))
      (useEffect (exampleFetch (resJson (GET [''srv''] emptyFs ''post.md'')))
         (Some (exampleBlog ''a'' None (Some ''post.md''))) initialState) = ComingSoon \<and>
   content' (useEffect (exampleFetch (resJson (GET [''srv''] emptyFs ''post.md'')))
      (Some (exampleBlog ''a'' None (Some ''post.md'')))
      \<lparr>content' = Some ''old'', loading = True, fetched = [], logged = []\<rparr>) = None"
proof -
  let ?fetch = "exampleFetch (resJson (GET [''srv''] emptyFs ''post.md''))"
  let ?b = "exampleBlog ''a'' None (Some ''post.md'')"
  let ?old = "\<lparr>content' = Some ''old'', loading = True, fetched = [], logged = []\<rparr>"
  have h: "contentFile ?b = Some ''post.md'' \<and> ''post.md'' \<noteq> [] \<and>
    readFile emptyFs (pathJoin [''srv''] [''app'', ''data'', ''content'', ''post.md'']) = None \<and>
    ?fetch (''/api/content/'' @ ''post.md'') = resJson (GET [''srv''] emptyFs ''post.md'')"
    by (simp add: exampleBlog_def exampleFetch_def readFile_def emptyFs_def)
  note a = mp [OF not_found_success_path [where b = ?b
      and f = "''post.md''" and fs = emptyFs and cwd = "[''srv'']"
      and fetch = ?fetch and st = initialState] h]
  note b = mp [OF not_found_success_path [where b = ?b
      and f = "''post.md''" and fs = emptyFs and cwd = "[''srv'']"
      and fetch = ?fetch and st = ?old] h]
  have i: "fetched initialState = []" "logged initialState = []"
    by (simp_all add: initialState_def)
  from a have 1: "status (GET [''srv''] emptyFs ''post.md'') = 404" by (rule conjunct1)
  from a have "fetched (useEffect ?fetch (Some ?b) initialState)
      = fetched initialState @ [''/api/content/'' @ ''post.md'']" by blast
  with i have 2: "fetched (useEffect ?fetch (Some ?b) initialState) = [''/api/content/post.md'']"
    by simp
  from a have "logged (useEffect ?fetch (Some ?b) initialState) = logged initialState" by blast
  with i have 3: "logged (useEffect ?fetch (Some ?b) initialState) = []" by simp
  from a have 4: "render (Some ?b) (useEffect ?fetch (Some ?b) initialState) = ComingSoon" by blast
  from b have 5: "content' (useEffect ?fetch (Some ?b) ?old) = None" by blast
  from 1 2 3 4 5 show ?thesis by (intro conjI)
qed

section \<open>Properties of the content endpoint\<close>

lemma splitSlash_simple: "CHR ''/'' \<notin> set f \<Longrightarrow> splitSlash f = [f]"
  by (induction f) auto

lemma pathJoin_simple:
  assumes "simpleName f"
  shows "pathJoin cwd [''app'', ''data'', ''content'', f] = (cwd @ [''app'', ''data'', ''content'', f], False)"
proof -
  from assms have ne: "f \<noteq> []" and ns: "CHR ''/'' \<notin> set f" and nd: "f \<noteq> ''.''" "f \<noteq> ''..''"
    by (auto simp: simpleName_def)
  have j: "joinWith (filter (\<lambda>a. a \<noteq> []) [''app'', ''data'', ''content'', f]) = ''app/data/content/'' @ f"
    using ne by simp
  have sp: "splitSlash (''app/data/content/'' @ f) = [''app'', ''data'', ''content'', f]"
    using ns by (simp add: splitSlash_simple)
  have l: "last (''app/data/content/'' @ f) \<noteq> CHR ''/''"
    using ne ns by (metis last_appendR last_in_set)
  have n: "normalizeSegments cwd [''app'', ''data'', ''content'', f] = cwd @ [''app'', ''data'', ''content'', f]"
    using ne nd by simp
  show ?thesis unfolding pathJoin_def j Let_def sp n using l by simp
qed

text \<open>
  Claim C4, as the code has it. The handler does not inspect \<^verbatim>\<open>filename\<close>; it reads
  whatever \<^verbatim>\<open>path.join\<close> makes of it. For a simple file name the file read is the one of
  that name directly inside \<^verbatim>\<open>app/data/content\<close>, and the answer is its text with status
  200, or the 404 body when it cannot be read.
\<close>

theorem GET_simple_name:
  "simpleName f \<longrightarrow>
     GET cwd fs f =
       (case fs (cwd @ [''app'', ''data'', ''content'', f]) of
          Some text \<Rightarrow> \<lparr>status = 200, contentField = Some text, errorField = None\<rparr>
        | None \<Rightarrow> \<lparr>status = 404, contentField = None, errorField = Some ''Content not found''\<rparr>)"
  by (simp add: GET_def pathJoin_simple readFile_def)

text \<open>The simple name \<^verbatim>\<open>post.md\<close> on the sample file system.\<close>

theorem GET_simple_name_witness:
  "GET [''srv''] exampleFs ''post.md'' = \<lparr>status = 200, contentField = Some ''# Title'', errorField = None\<rparr>"
proof -
  have s: "simpleName ''post.md''" by (simp add: simpleName_def)
  from GET_simple_name [where f = "''post.md''" and cwd = "[''srv'']" and fs = exampleFs] s
  show ?thesis by (simp add: exampleFs_def)
qed

text \<open>
  The claim as stated fails: nothing rejects a file name that is a path. With
  \<^verbatim>\<open>../blogs.json\<close> the handler leaves the content directory and answers with the text
  of \<^verbatim>\<open>app/data/blogs.json\<close>.
\<close>

theorem GET_traversal_counterexample:
  "GET [''srv''] exampleFs ''../blogs.json''
     = \<lparr>status = 200, contentField = Some ''[]'', errorField = None\<rparr>"
  by (simp add: GET_def pathJoin_def readFile_def exampleFs_def)

end
